theory Spec2Isabelle
  imports Complex_Main "HOL-Library.Word" "HOL-Library.Monad_Syntax"
begin

unbundle bit_operations_syntax

chapter \<open>Definitions\<close>

section \<open>Registry: the string-keyed chained hash table (registry.c)\<close>

text \<open>
  A \<^verbatim>\<open>Registry\<close> is an array of \<^verbatim>\<open>REGISTRY_SIZE\<close> bucket heads; each bucket is a singly
  linked chain of \<^verbatim>\<open>RegistryEntry {key, value, next}\<close>. A chain is modelled as the list of
  its (key, value) pairs from the head, the array as a function from the bucket index.
  Keys are C strings (the bytes before the terminator), compared with \<^verbatim>\<open>strcmp\<close>.
  The \<^verbatim>\<open>void *value\<close> of an entry is the entry structure it points to; \<^verbatim>\<open>malloc\<close> is
  taken to succeed, as the code does (its result is used unchecked).
\<close>

type_synonym 'v chain = "(string \<times> 'v) list"

type_synonym 'v Registry = "nat \<Rightarrow> 'v chain"

definition REGISTRY_SIZE :: nat where
  "REGISTRY_SIZE = 64"

definition empty_registry :: "'v Registry" where
  \<comment> \<open>\<^verbatim>\<open>static Registry r = {{NULL}}\<close>\<close>
  "empty_registry = (\<lambda>idx. [])"

definition char_to_int :: "char \<Rightarrow> int" where
  \<comment> \<open>\<^verbatim>\<open>int c = *str\<close> with plain \<^verbatim>\<open>char\<close> signed\<close>
  "char_to_int ch = (let n = of_char ch in if n < 128 then n else n - 256)"

fun hash_loop :: "string \<Rightarrow> 32 word \<Rightarrow> 32 word" where
  "hash_loop [] h = h"
| "hash_loop (c # str) h = hash_loop str (((push_bit 5 h) + h) + word_of_int (char_to_int c))"

definition hash :: "string \<Rightarrow> nat" where
  "hash str = unat (hash_loop str 5381) mod REGISTRY_SIZE"

fun chain_get :: "'v chain \<Rightarrow> string \<Rightarrow> 'v option" where
  "chain_get [] key = None"
| "chain_get ((k, v) # next) key = (if k = key then Some v else chain_get next key)"

definition registry_get :: "'v Registry \<Rightarrow> string \<Rightarrow> 'v option" where
  "registry_get reg key = chain_get (reg (hash key)) key"

fun chain_set :: "'v chain \<Rightarrow> string \<Rightarrow> 'v \<Rightarrow> 'v chain option" where
  \<comment> \<open>the \<^verbatim>\<open>while (entry)\<close> loop of \<^verbatim>\<open>registry_set\<close>; \<open>None\<close> when the key is not in the chain\<close>
  "chain_set [] key val = None"
| "chain_set ((k, v) # next) key val =
     (if k = key then Some ((k, val) # next)
      else (case chain_set next key val of
              None \<Rightarrow> None
            | Some next' \<Rightarrow> Some ((k, v) # next')))"

definition registry_set :: "'v Registry \<Rightarrow> string \<Rightarrow> 'v \<Rightarrow> 'v Registry" where
  "registry_set reg key val =
     (let idx = hash key in
      case chain_set (reg idx) key val of
        Some chain' \<Rightarrow> reg(idx := chain')
      | None \<Rightarrow> reg(idx := (key, val) # reg idx))"

subsection \<open>Operation registry with backend priority\<close>

text \<open>
  An \<^verbatim>\<open>OpFn\<close> is a function pointer; \<open>None\<close> is the null pointer. The process-wide
  \<^verbatim>\<open>operation_registry\<close> is passed in and returned.
\<close>

record 'f OperationRegistryEntry =
  op_fn :: "'f option"
  priority :: int

definition register_operation_backend ::
  "'f OperationRegistryEntry Registry \<Rightarrow> string \<Rightarrow> 'f option \<Rightarrow> int
     \<Rightarrow> 'f OperationRegistryEntry Registry" where
  "register_operation_backend reg name fn prio =
     (case registry_get reg name of
        None \<Rightarrow> registry_set reg name \<lparr>op_fn = fn, priority = prio\<rparr>
      | Some existing \<Rightarrow>
          if prio > priority existing
          then registry_set reg name \<lparr>op_fn = fn, priority = prio\<rparr>
          else reg)"

definition register_operation ::
  "'f OperationRegistryEntry Registry \<Rightarrow> string \<Rightarrow> 'f option
     \<Rightarrow> 'f OperationRegistryEntry Registry" where
  "register_operation reg name fn = register_operation_backend reg name fn 0"

definition get_operation_fn :: "'f OperationRegistryEntry Registry \<Rightarrow> string \<Rightarrow> 'f option" where
  "get_operation_fn reg name =
     (case registry_get reg name of None \<Rightarrow> None | Some entry \<Rightarrow> op_fn entry)"

text \<open>A run of registrations, in program order, each \<open>(name, op_fn, priority)\<close>.\<close>

fun register_all ::
  "'f OperationRegistryEntry Registry \<Rightarrow> (string \<times> 'f option \<times> int) list
     \<Rightarrow> 'f OperationRegistryEntry Registry" where
  "register_all reg [] = reg"
| "register_all reg ((name, fn, prio) # rs) =
     register_all (register_operation_backend reg name fn prio) rs"

text \<open>
  The specification's reading of the dispatcher: among the registrations seen for a name,
  the one with the highest priority wins, the earliest of them on a tie; no registration,
  no implementation.
\<close>

definition first_with_highest_priority ::
  "(string \<times> 'f option \<times> int) list \<Rightarrow> (string \<times> 'f option \<times> int)" where
  "first_with_highest_priority seen =
     hd (filter (\<lambda>r. snd (snd r) = Max (set (map (\<lambda>r. snd (snd r)) seen))) seen)"

definition highest_priority_seen ::
  "(string \<times> 'f option \<times> int) list \<Rightarrow> string \<Rightarrow> 'f option" where
  "highest_priority_seen rs name =
     (let seen = filter (\<lambda>r. fst r = name) rs in
      if seen = [] then None else fst (snd (first_with_highest_priority seen)))"

section \<open>Optimizer registry and constructor (registry.c, optimizer.c)\<close>

text \<open>
  The three function pointers of an optimizer; \<open>None\<close> is the null pointer. The init-state
  function is the one \<^verbatim>\<open>optimizer_create\<close> calls, so it is a function here: from the
  parameter array, its length and the configuration's \<^verbatim>\<open>params\<close> to the new state, \<open>None\<close>
  for a null state.
\<close>

record ('i, 's, 'f) OptimizerRegistryEntry =
  init_state_fn :: "'i option"
  step_fn :: "'s option"
  free_state_fn :: "'f option"

definition register_optimizer ::
  "('i, 's, 'f) OptimizerRegistryEntry Registry \<Rightarrow> string \<Rightarrow> 'i option \<Rightarrow> 's option \<Rightarrow> 'f option
     \<Rightarrow> ('i, 's, 'f) OptimizerRegistryEntry Registry" where
  "register_optimizer reg nm init_fn stp_fn free_fn =
     registry_set reg nm \<lparr>init_state_fn = init_fn, step_fn = stp_fn, free_state_fn = free_fn\<rparr>"

definition get_optimizer_init_state_fn ::
  "('i, 's, 'f) OptimizerRegistryEntry Registry \<Rightarrow> string \<Rightarrow> 'i option" where
  "get_optimizer_init_state_fn reg nm =
     (case registry_get reg nm of None \<Rightarrow> None | Some entry \<Rightarrow> init_state_fn entry)"

definition get_optimizer_step_fn ::
  "('i, 's, 'f) OptimizerRegistryEntry Registry \<Rightarrow> string \<Rightarrow> 's option" where
  "get_optimizer_step_fn reg nm =
     (case registry_get reg nm of None \<Rightarrow> None | Some entry \<Rightarrow> step_fn entry)"

definition get_optimizer_free_state_fn ::
  "('i, 's, 'f) OptimizerRegistryEntry Registry \<Rightarrow> string \<Rightarrow> 'f option" where
  "get_optimizer_free_state_fn reg nm =
     (case registry_get reg nm of None \<Rightarrow> None | Some entry \<Rightarrow> free_state_fn entry)"

record 'c OptimizerConfig =
  cfg_name :: string
  cfg_params :: 'c

text \<open>
  The \<^verbatim>\<open>Optimizer\<close> structure. Its \<^verbatim>\<open>zero_grad\<close> member is always the one function
  \<^verbatim>\<open>optimizer_zero_grad\<close> and is left out. The members of the structures carry a prefix
  here (\<open>cfg_\<close>, \<open>opt_\<close>, and below \<open>ctx_\<close>, \<open>sgd_\<close>, \<open>adam_\<close>), since a bare \<^verbatim>\<open>name\<close>,
  \<^verbatim>\<open>state\<close>, \<^verbatim>\<open>instance\<close> or \<^verbatim>\<open>t\<close> would clash.
\<close>

record ('p, 's, 'f, 'st) Optimizer =
  opt_name :: string
  opt_parameters :: 'p
  opt_num_parameters :: nat
  opt_step :: 's
  opt_free_state :: 'f
  opt_state :: 'st

text \<open>
  \<^verbatim>\<open>optimizer_create\<close>. \<open>parameters = None\<close> is the null array pointer; \<open>malloc_ok\<close> says
  whether \<^verbatim>\<open>malloc(sizeof(Optimizer))\<close> succeeds. The result \<open>None\<close> is \<^verbatim>\<open>NULL\<close>.
\<close>

definition optimizer_create ::
  "('p \<Rightarrow> nat \<Rightarrow> 'c \<Rightarrow> 'st option, 's, 'f) OptimizerRegistryEntry Registry \<Rightarrow> bool
     \<Rightarrow> 'p option \<Rightarrow> nat \<Rightarrow> 'c OptimizerConfig \<Rightarrow> ('p, 's, 'f, 'st) Optimizer option" where
  "optimizer_create reg malloc_ok parameters num_parameters config =
     (case parameters of
        None \<Rightarrow> None
      | Some params \<Rightarrow>
          if num_parameters = 0 then None
          else
            (case (get_optimizer_init_state_fn reg (cfg_name config),
                   get_optimizer_step_fn reg (cfg_name config),
                   get_optimizer_free_state_fn reg (cfg_name config)) of
               (Some init_fn, Some stp_fn, Some free_fn) \<Rightarrow>
                 if \<not> malloc_ok then None
                 else
                   (case init_fn params num_parameters (cfg_params config) of
                      None \<Rightarrow> None
                    | Some st \<Rightarrow>
                        Some \<lparr>opt_name = cfg_name config, opt_parameters = params,
                              opt_num_parameters = num_parameters, opt_step = stp_fn,
                              opt_free_state = free_fn, opt_state = st\<rparr>)
             | _ \<Rightarrow> None))"

section \<open>WebGPU session (webgpu_backend.c)\<close>

text \<open>
  Handles of the WebGPU runtime are opaque; \<open>None\<close> is the null handle. The process-wide
  \<^verbatim>\<open>g_webgpu_ctx\<close> is passed in and returned. What is written to \<^verbatim>\<open>stderr\<close> is returned as
  the list of messages, in order; \<^verbatim>\<open>printf\<close> output and the release calls on handles have
  no effect on the context and are left out.
\<close>

type_synonym handle = nat

record WebGPUContext =
  ctx_instance :: "handle option"
  ctx_adapter :: "handle option"
  ctx_device :: "handle option"
  ctx_queue :: "handle option"
  ctx_initialized :: int

definition g_webgpu_ctx_initial :: WebGPUContext where
  "g_webgpu_ctx_initial =
     \<lparr>ctx_instance = None, ctx_adapter = None, ctx_device = None, ctx_queue = None,
      ctx_initialized = 0\<rparr>"

text \<open>
  An asynchronous request of the runtime: its callback runs during the \<open>k\<close>-th call of
  \<^verbatim>\<open>wgpuInstanceProcessEvents\<close> after the request (\<open>fires_after = Some k\<close>; \<open>k = 0\<close>: during
  the request itself, which \<^verbatim>\<open>WGPUCallbackMode_AllowSpontaneous\<close> permits) or not at all
  (\<open>None\<close>); it carries a status and a handle.
\<close>

record async_reply =
  fires_after :: "nat option"
  reply_success :: bool
  reply_handle :: "handle option"

definition callback_done :: "nat option \<Rightarrow> nat \<Rightarrow> bool" where
  \<comment> \<open>the \<^verbatim>\<open>done\<close> flag after \<open>t\<close> calls of \<^verbatim>\<open>wgpuInstanceProcessEvents\<close>\<close>
  "callback_done fires t = (case fires of None \<Rightarrow> False | Some k \<Rightarrow> k \<le> t)"

function poll_events :: "nat option \<Rightarrow> nat \<Rightarrow> nat \<Rightarrow> nat" where
  \<comment> \<open>\<^verbatim>\<open>while (!done && timeout < budget) { wgpuInstanceProcessEvents(..); timeout++; }\<close>\<close>
  "poll_events fires budget timeout =
     (if \<not> callback_done fires timeout \<and> timeout < budget
      then poll_events fires budget (timeout + 1)
      else timeout)"
  by pat_completeness auto
termination
  by (relation "measure (\<lambda>(fires, budget, timeout). budget - timeout)") auto

declare poll_events.simps [simp del]

definition callback_handle :: "async_reply \<Rightarrow> nat \<Rightarrow> handle option" where
  \<comment> \<open>\<^verbatim>\<open>adapter_request_callback\<close>, \<^verbatim>\<open>device_request_callback\<close>: the handle is stored on success\<close>
  "callback_handle r t =
     (if callback_done (fires_after r) t \<and> reply_success r then reply_handle r else None)"

definition callback_log :: "string \<Rightarrow> async_reply \<Rightarrow> nat \<Rightarrow> string list" where
  "callback_log msg r t =
     (if callback_done (fires_after r) t \<and> \<not> reply_success r then [msg] else [])"

text \<open>What the runtime answers during one call of \<^verbatim>\<open>webgpu_init\<close>.\<close>

record dawn_env =
  create_instance :: "handle option"
  metal_adapter :: async_reply
  fallback_adapter :: async_reply
  device_request :: async_reply
  device_queue :: "handle option"

text \<open>
  Lines 101 to 151 of \<^verbatim>\<open>webgpu_init\<close>: the adapter request, and the second request without
  backend constraint. \<open>Inl msgs\<close> is one of the three \<^verbatim>\<open>return -1\<close> of this part, \<open>Inr\<close>
  the adapter obtained.
\<close>

definition webgpu_init_adapter :: "dawn_env \<Rightarrow> string list + (handle option \<times> string list)" where
  "webgpu_init_adapter env =
     (let adapter_timeout = poll_events (fires_after (metal_adapter env)) 1000 0;
          log1 = callback_log ''WebGPU adapter request failed'' (metal_adapter env) adapter_timeout;
          adapter1 = callback_handle (metal_adapter env) adapter_timeout
      in
      if adapter_timeout \<ge> 1000 then Inl (log1 @ [''Timeout waiting for adapter!''])
      else if adapter1 = None then
        (let log2 = log1 @ [''Failed to get Metal adapter, trying without backend constraint...''];
             adapter_timeout2 = poll_events (fires_after (fallback_adapter env)) 1000 0;
             log3 = log2 @ callback_log ''WebGPU adapter request failed'' (fallback_adapter env)
                              adapter_timeout2;
             adapter2 = callback_handle (fallback_adapter env) adapter_timeout2
         in
         if adapter_timeout2 \<ge> 1000 then Inl (log3 @ [''Timeout waiting for fallback adapter!''])
         else if adapter2 = None then Inl (log3 @ [''Failed to get any WebGPU adapter''])
         else Inr (adapter2, log3))
      else Inr (adapter1, log1))"

definition webgpu_init :: "dawn_env \<Rightarrow> WebGPUContext \<Rightarrow> int \<times> WebGPUContext \<times> string list" where
  "webgpu_init env ctx =
     (if ctx_initialized ctx \<noteq> 0 then (0, ctx, [])
      else
        (let ctx1 = ctx\<lparr>ctx_instance := create_instance env\<rparr> in
         if ctx_instance ctx1 = None then (- 1, ctx1, [''Failed to create WebGPU instance''])
         else
           (case webgpu_init_adapter env of
              Inl msgs \<Rightarrow> (- 1, ctx1\<lparr>ctx_instance := None\<rparr>, msgs)
            | Inr (adapter, msgs) \<Rightarrow>
                (let ctx2 = ctx1\<lparr>ctx_adapter := adapter\<rparr>;
                     device_timeout = poll_events (fires_after (device_request env)) 1000 0;
                     log4 = msgs @ callback_log ''WebGPU device request failed'' (device_request env)
                                     device_timeout;
                     dev = callback_handle (device_request env) device_timeout
                 in
                 if device_timeout \<ge> 1000
                 then (- 1, ctx2\<lparr>ctx_adapter := None, ctx_instance := None\<rparr>,
                       log4 @ [''Timeout waiting for device!''])
                 else if dev = None
                 then (- 1, ctx2\<lparr>ctx_adapter := None, ctx_instance := None\<rparr>,
                       log4 @ [''Failed to get WebGPU device''])
                 else
                   (let ctx3 = ctx2\<lparr>ctx_device := dev\<rparr>;
                        ctx4 = ctx3\<lparr>ctx_queue := device_queue env\<rparr>
                    in
                    if ctx_queue ctx4 = None
                    then (- 1, ctx4\<lparr>ctx_device := None, ctx_adapter := None, ctx_instance := None\<rparr>,
                          log4 @ [''Failed to get WebGPU queue''])
                    else (0, ctx4\<lparr>ctx_initialized := 1\<rparr>, log4))))))"

definition webgpu_cleanup :: "WebGPUContext \<Rightarrow> WebGPUContext" where
  "webgpu_cleanup ctx =
     ctx\<lparr>ctx_queue := None, ctx_device := None, ctx_adapter := None, ctx_instance := None,
         ctx_initialized := 0\<rparr>"

definition webgpu_available :: "WebGPUContext \<Rightarrow> int" where
  "webgpu_available ctx = ctx_initialized ctx"

subsection \<open>Reading a buffer back\<close>

text \<open>
  What the runtime answers to one \<^verbatim>\<open>wgpuBufferMapAsync\<close>: when the map callback runs, and
  what \<^verbatim>\<open>wgpuBufferGetConstMappedRange\<close> returns afterwards (\<open>None\<close>: null).
\<close>

record 'a map_env =
  map_fires_after :: "nat option"
  mapped_range :: "'a list option"

definition memcpy :: "'a list \<Rightarrow> 'a list \<Rightarrow> nat \<Rightarrow> 'a list" where
  \<comment> \<open>the first \<open>n\<close> units of \<open>dst\<close> replaced by those of \<open>src\<close>; both hold at least \<open>n\<close>\<close>
  "memcpy dst src n = take n src @ drop n dst"

text \<open>
  \<^verbatim>\<open>webgpu_read_buffer\<close> returns nothing; the model returns the destination buffer \<open>data\<close>
  (\<open>None\<close>: a null pointer) as the call leaves it, and the messages written to \<^verbatim>\<open>stderr\<close>.
\<close>

definition webgpu_read_buffer ::
  "WebGPUContext \<Rightarrow> 'a map_env \<Rightarrow> handle option \<Rightarrow> 'a list option \<Rightarrow> nat
     \<Rightarrow> 'a list option \<times> string list" where
  "webgpu_read_buffer ctx env buffer data_ptr sz =
     (case (buffer, data_ptr) of
        (Some buf, Some dat) \<Rightarrow>
          if webgpu_available ctx = 0 then (data_ptr, [])
          else
            (let map_timeout = poll_events (map_fires_after env) 10000 0 in
             if map_timeout \<ge> 10000 then (data_ptr, [''Timeout waiting for buffer map!''])
             else
               (case mapped_range env of
                  None \<Rightarrow> (data_ptr, [])
                | Some mapped \<Rightarrow> (Some (memcpy dat mapped sz), [])))
      | _ \<Rightarrow> (data_ptr, []))"

definition poll_timed_out :: "nat option \<Rightarrow> nat \<Rightarrow> bool" where
  \<comment> \<open>the test \<^verbatim>\<open>if (timeout >= budget)\<close> after a poll loop started at 0\<close>
  "poll_timed_out fires budget = (poll_events fires budget 0 \<ge> budget)"

text \<open>A run of calls of \<^verbatim>\<open>webgpu_init\<close>, each with the runtime's answers for that call.\<close>

fun webgpu_init_calls :: "WebGPUContext \<Rightarrow> dawn_env list \<Rightarrow> WebGPUContext" where
  "webgpu_init_calls ctx [] = ctx"
| "webgpu_init_calls ctx (env # envs) = webgpu_init_calls (fst (snd (webgpu_init env ctx))) envs"

section \<open>Tensors on the heap\<close>

text \<open>
  A \<^verbatim>\<open>Tensor *\<close> is an address; the heap maps the addresses of live tensors to their
  contents. \<^verbatim>\<open>grad = None\<close> is the null gradient buffer, \<^verbatim>\<open>inputs\<close> the array of
  input tensors of the graph node (\<^verbatim>\<open>num_inputs\<close> is its length); the operation tag and
  the bound gradient rule are not needed here and left out. The member \<^verbatim>\<open>size\<close> is called
  \<open>tsize\<close>. Each tensor owns its buffers (views are not modelled).

  The type of the elements is a parameter of the structure. Where a property concerns which
  expression is computed, or which buffers are written, a \<^verbatim>\<open>float\<close> is idealised as a real
  number (\<open>Tensor\<close>, \<open>heap\<close>): rounding, infinities and NaN are then outside the model.
  Where it depends on what a product with \<^verbatim>\<open>0.0f\<close> is, as for \<^verbatim>\<open>backward_relu\<close>, the elements
  are the C floats \<open>cfloat\<close> below (\<open>FloatTensor\<close>, \<open>float_heap\<close>).
\<close>

type_synonym addr = nat

record 'a tensor =
  data :: "'a list"
  grad :: "'a list option"
  shape :: "nat list"
  ndim :: nat
  tsize :: nat
  requires_grad :: int
  inputs :: "addr list"

type_synonym Tensor = "real tensor"

type_synonym heap = "addr \<rightharpoonup> Tensor"

subsection \<open>C floats with their special values\<close>

text \<open>
  The values of a \<^verbatim>\<open>float\<close> (IEEE 754 binary32): the finite numbers, with the two zeros
  (\<open>Finite 0\<close> is \<^verbatim>\<open>+0.0f\<close>, \<open>NegZero\<close> is \<^verbatim>\<open>-0.0f\<close>), the two infinities and NaN. Sum,
  product and comparison follow IEEE 754 on the zeros, the infinities and NaN; a finite
  nonzero result is the exact real number, so that rounding, overflow and underflow of
  finite results are not modelled.
\<close>

datatype cfloat = Finite real | NegZero | PlusInf | MinusInf | NaN

fun is_nan :: "cfloat \<Rightarrow> bool" where
  "is_nan NaN = True"
| "is_nan x = False"

fun is_inf :: "cfloat \<Rightarrow> bool" where
  "is_inf PlusInf = True"
| "is_inf MinusInf = True"
| "is_inf x = False"

fun is_finite :: "cfloat \<Rightarrow> bool" where
  "is_finite (Finite x) = True"
| "is_finite NegZero = True"
| "is_finite x = False"

fun value_of :: "cfloat \<Rightarrow> real" where
  \<comment> \<open>the number a finite float denotes\<close>
  "value_of (Finite x) = x"
| "value_of x = 0"

fun is_zero :: "cfloat \<Rightarrow> bool" where
  "is_zero (Finite x) = (x = 0)"
| "is_zero NegZero = True"
| "is_zero x = False"

fun sign_bit :: "cfloat \<Rightarrow> bool" where
  "sign_bit (Finite x) = (x < 0)"
| "sign_bit NegZero = True"
| "sign_bit MinusInf = True"
| "sign_bit x = False"

definition same_value :: "cfloat \<Rightarrow> cfloat \<Rightarrow> bool" where
  \<comment> \<open>the same float, the two zeros taken as one value\<close>
  "same_value x y \<longleftrightarrow> x = y \<or> (is_zero x \<and> is_zero y)"

instantiation cfloat :: "{zero, one, plus, times, ord}"
begin

definition zero_cfloat :: cfloat where
  "zero_cfloat = Finite 0"

definition one_cfloat :: cfloat where
  "one_cfloat = Finite 1"

definition plus_cfloat :: "cfloat \<Rightarrow> cfloat \<Rightarrow> cfloat" where
  "plus_cfloat x y =
     (if is_nan x \<or> is_nan y then NaN
      else if is_inf x \<and> is_inf y then (if x = y then x else NaN)
      else if is_inf x then x
      else if is_inf y then y
      else if value_of x + value_of y = 0
      then (if x = NegZero \<and> y = NegZero then NegZero else Finite 0)
      else Finite (value_of x + value_of y))"

definition times_cfloat :: "cfloat \<Rightarrow> cfloat \<Rightarrow> cfloat" where
  "times_cfloat x y =
     (if is_nan x \<or> is_nan y then NaN
      else if (is_inf x \<and> is_zero y) \<or> (is_zero x \<and> is_inf y) then NaN
      else if is_inf x \<or> is_inf y
      then (if sign_bit x \<noteq> sign_bit y then MinusInf else PlusInf)
      else if value_of x * value_of y = 0
      then (if sign_bit x \<noteq> sign_bit y then NegZero else Finite 0)
      else Finite (value_of x * value_of y))"

definition less_cfloat :: "cfloat \<Rightarrow> cfloat \<Rightarrow> bool" where
  "less_cfloat x y =
     (if is_nan x \<or> is_nan y then False
      else if x = PlusInf \<or> y = MinusInf then False
      else if x = MinusInf \<or> y = PlusInf then True
      else value_of x < value_of y)"

definition less_eq_cfloat :: "cfloat \<Rightarrow> cfloat \<Rightarrow> bool" where
  "less_eq_cfloat x y =
     (if is_nan x \<or> is_nan y then False
      else if x = MinusInf \<or> y = PlusInf then True
      else if x = PlusInf \<or> y = MinusInf then False
      else value_of x \<le> value_of y)"

instance ..

end

type_synonym FloatTensor = "cfloat tensor"

type_synonym float_heap = "addr \<rightharpoonup> FloatTensor"

text \<open>
  Reading and writing element \<open>i\<close> of a buffer. The result \<open>None\<close> stands for undefined
  behaviour of the C program: an access outside the buffer or through a null pointer.
\<close>

definition load :: "'a list \<Rightarrow> nat \<Rightarrow> 'a option" where
  "load buf i = (if i < length buf then Some (buf ! i) else None)"

definition store :: "'a list \<Rightarrow> nat \<Rightarrow> 'a \<Rightarrow> 'a list option" where
  "store buf i x = (if i < length buf then Some (buf[i := x]) else None)"

function for_loop :: "nat \<Rightarrow> nat \<Rightarrow> (nat \<Rightarrow> 's \<Rightarrow> 's option) \<Rightarrow> 's \<Rightarrow> 's option" where
  \<comment> \<open>\<^verbatim>\<open>for (; i < n; i++) body\<close>, stopping at undefined behaviour\<close>
  "for_loop i n body s =
     (if i < n
      then (case body i s of None \<Rightarrow> None | Some s' \<Rightarrow> for_loop (i + 1) n body s')
      else Some s)"
  by pat_completeness auto
termination
  by (relation "measure (\<lambda>(i, n, body, s). n - i)") auto

declare for_loop.simps [simp del]

section \<open>Gradient rules of the activations (autograd.c)\<close>

definition ensure_grad :: "'a::zero tensor \<Rightarrow> 'a tensor" where
  \<comment> \<open>\<^verbatim>\<open>if (!Z->grad) Z->grad = calloc(Z->size, sizeof(float))\<close>, \<^verbatim>\<open>calloc\<close> taken to succeed\<close>
  "ensure_grad Z =
     (case grad Z of None \<Rightarrow> Z\<lparr>grad := Some (replicate (tsize Z) 0)\<rparr> | Some g \<Rightarrow> Z)"

definition add_to_grad ::
  "(addr \<rightharpoonup> 'a::plus tensor) \<Rightarrow> addr \<Rightarrow> nat \<Rightarrow> 'a \<Rightarrow> (addr \<rightharpoonup> 'a tensor) option" where
  \<comment> \<open>\<^verbatim>\<open>Z->grad[i] += x\<close>\<close>
  "add_to_grad h z i x =
     do {
       Z \<leftarrow> h z;
       z_grad \<leftarrow> grad Z;
       old \<leftarrow> load z_grad i;
       z_grad' \<leftarrow> store z_grad i (old + x);
       Some (h(z \<mapsto> Z\<lparr>grad := Some z_grad'\<rparr>))
     }"

definition load_grad :: "(addr \<rightharpoonup> 'a tensor) \<Rightarrow> addr \<Rightarrow> nat \<Rightarrow> 'a option" where
  \<comment> \<open>\<^verbatim>\<open>A->grad[i]\<close>\<close>
  "load_grad h a i = do { A \<leftarrow> h a; a_grad \<leftarrow> grad A; load a_grad i }"

definition load_data :: "(addr \<rightharpoonup> 'a tensor) \<Rightarrow> addr \<Rightarrow> nat \<Rightarrow> 'a option" where
  \<comment> \<open>\<^verbatim>\<open>A->data[i]\<close>\<close>
  "load_data h a i = do { A \<leftarrow> h a; load (data A) i }"

text \<open>
  \<^verbatim>\<open>backward_relu\<close> over C floats: the product with the mask, the sum and the comparison
  are those of \<open>cfloat\<close>, \<open>1\<close> and \<open>0\<close> are \<^verbatim>\<open>1.0f\<close> and \<^verbatim>\<open>0.0f\<close>.
\<close>

definition relu_body :: "addr \<Rightarrow> addr \<Rightarrow> nat \<Rightarrow> float_heap \<Rightarrow> float_heap option" where
  \<comment> \<open>\<^verbatim>\<open>Z->grad[i] += A->grad[i] * (Z->data[i] > 0 ? 1.0f : 0.0f)\<close>\<close>
  "relu_body a z i h =
     do {
       g \<leftarrow> load_grad h a i;
       x \<leftarrow> load_data h z i;
       add_to_grad h z i (g * (if x > 0 then 1 else 0))
     }"

definition backward_relu :: "float_heap \<Rightarrow> addr \<Rightarrow> float_heap option" where
  "backward_relu h a =
     do {
       A \<leftarrow> h a;
       z \<leftarrow> load (inputs A) 0;
       Z \<leftarrow> h z;
       if requires_grad Z \<noteq> 0
       then for_loop 0 (tsize Z) (relu_body a z) (h(z \<mapsto> ensure_grad Z))
       else Some h
     }"

definition sigmoid_body :: "addr \<Rightarrow> addr \<Rightarrow> nat \<Rightarrow> heap \<Rightarrow> heap option" where
  \<comment> \<open>\<^verbatim>\<open>float sig = A->data[i]; Z->grad[i] += A->grad[i] * sig * (1.0f - sig)\<close>\<close>
  "sigmoid_body a z i h =
     do {
       sig \<leftarrow> load_data h a i;
       g \<leftarrow> load_grad h a i;
       add_to_grad h z i (g * sig * (1 - sig))
     }"

definition backward_sigmoid :: "heap \<Rightarrow> addr \<Rightarrow> heap option" where
  "backward_sigmoid h a =
     do {
       A \<leftarrow> h a;
       z \<leftarrow> load (inputs A) 0;
       Z \<leftarrow> h z;
       if requires_grad Z \<noteq> 0
       then for_loop 0 (tsize Z) (sigmoid_body a z) (h(z \<mapsto> ensure_grad Z))
       else Some h
     }"

definition tanh_body :: "addr \<Rightarrow> addr \<Rightarrow> nat \<Rightarrow> heap \<Rightarrow> heap option" where
  \<comment> \<open>\<^verbatim>\<open>float t = A->data[i]; Z->grad[i] += A->grad[i] * (1.0f - t * t)\<close>\<close>
  "tanh_body a z i h =
     do {
       t \<leftarrow> load_data h a i;
       g \<leftarrow> load_grad h a i;
       add_to_grad h z i (g * (1 - t * t))
     }"

definition backward_tanh :: "heap \<Rightarrow> addr \<Rightarrow> heap option" where
  "backward_tanh h a =
     do {
       A \<leftarrow> h a;
       z \<leftarrow> load (inputs A) 0;
       Z \<leftarrow> h z;
       if requires_grad Z \<noteq> 0
       then for_loop 0 (tsize Z) (tanh_body a z) (h(z \<mapsto> ensure_grad Z))
       else Some h
     }"

definition softmax_body :: "addr \<Rightarrow> addr \<Rightarrow> nat \<Rightarrow> nat \<Rightarrow> heap \<Rightarrow> heap option" where
  \<comment> \<open>\<^verbatim>\<open>float delta = (i == j) ? 1.0f : 0.0f;
      Z->grad[i] += A->grad[j] * A->data[j] * (delta - A->data[i])\<close>\<close>
  "softmax_body a z i j h =
     do {
       let delta = (if i = j then 1 else 0);
       g \<leftarrow> load_grad h a j;
       aj \<leftarrow> load_data h a j;
       ai \<leftarrow> load_data h a i;
       add_to_grad h z i (g * aj * (delta - ai))
     }"

definition backward_softmax :: "heap \<Rightarrow> addr \<Rightarrow> heap option" where
  "backward_softmax h a =
     do {
       A \<leftarrow> h a;
       z \<leftarrow> load (inputs A) 0;
       Z \<leftarrow> h z;
       if requires_grad Z \<noteq> 0
       then for_loop 0 (tsize Z) (\<lambda>i. for_loop 0 (tsize Z) (softmax_body a z i))
              (h(z \<mapsto> ensure_grad Z))
       else Some h
     }"

text \<open>The gradient buffer of a tensor as the rule finds it after the allocation on first use.\<close>

definition grad_before :: "'a::zero tensor \<Rightarrow> 'a list" where
  "grad_before Z = (case grad Z of None \<Rightarrow> replicate (tsize Z) 0 | Some g \<Rightarrow> g)"

section \<open>Optimizer steps (registry.c)\<close>

text \<open>
  The optimizer's \<^verbatim>\<open>parameters\<close> is the array of the addresses of the parameter tensors;
  the state tensors (\<^verbatim>\<open>velocity[i]\<close>, \<^verbatim>\<open>m[i]\<close>, \<^verbatim>\<open>v[i]\<close>) live on the same heap. A step
  returns the heap it leaves, \<open>None\<close> for undefined behaviour (an array or a buffer read or
  written outside its bounds, a null pointer followed). In the real-number idealisation
  \<^verbatim>\<open>powf(b, t)\<close> is \<open>b powi t\<close>, \<^verbatim>\<open>sqrtf\<close> is \<open>sqrt\<close> and a division by zero yields 0, where
  the floating-point code yields an infinity or NaN.
\<close>

record SGDState =
  sgd_learning_rate :: real
  sgd_momentum :: real
  sgd_velocity :: "addr list option"

record AdamState =
  adam_learning_rate :: real
  adam_beta1 :: real
  adam_beta2 :: real
  adam_epsilon :: real
  adam_t :: int
  adam_m :: "addr list"
  adam_v :: "addr list"

definition store_data :: "heap \<Rightarrow> addr \<Rightarrow> nat \<Rightarrow> real \<Rightarrow> heap option" where
  \<comment> \<open>\<^verbatim>\<open>P->data[j] = x\<close>\<close>
  "store_data h p j x =
     do {
       P \<leftarrow> h p;
       d \<leftarrow> store (data P) j x;
       Some (h(p \<mapsto> P\<lparr>data := d\<rparr>))
     }"

definition sgd_momentum_body :: "SGDState \<Rightarrow> addr \<Rightarrow> nat \<Rightarrow> nat \<Rightarrow> heap \<Rightarrow> heap option" where
  \<comment> \<open>\<^verbatim>\<open>state->velocity[i]->data[j] = state->momentum * state->velocity[i]->data[j]
                                     - state->learning_rate * param->grad[j];
      param->data[j] += state->velocity[i]->data[j];\<close>\<close>
  "sgd_momentum_body state param i j h =
     do {
       vel \<leftarrow> sgd_velocity state;
       vi \<leftarrow> load vel i;
       vj \<leftarrow> load_data h vi j;
       gj \<leftarrow> load_grad h param j;
       h1 \<leftarrow> store_data h vi j (sgd_momentum state * vj - sgd_learning_rate state * gj);
       pj \<leftarrow> load_data h1 param j;
       vj' \<leftarrow> load_data h1 vi j;
       store_data h1 param j (pj + vj')
     }"

definition sgd_plain_body :: "SGDState \<Rightarrow> addr \<Rightarrow> nat \<Rightarrow> heap \<Rightarrow> heap option" where
  \<comment> \<open>\<^verbatim>\<open>param->data[j] -= state->learning_rate * param->grad[j]\<close>\<close>
  "sgd_plain_body state param j h =
     do {
       pj \<leftarrow> load_data h param j;
       gj \<leftarrow> load_grad h param j;
       store_data h param j (pj - sgd_learning_rate state * gj)
     }"

definition sgd_param ::
  "(addr list, 's, 'f, SGDState) Optimizer \<Rightarrow> nat \<Rightarrow> heap \<Rightarrow> heap option" where
  \<comment> \<open>the body of the loop over the parameters; \<^verbatim>\<open>if (!param->grad) continue;\<close>\<close>
  "sgd_param opt i h =
     do {
       param \<leftarrow> load (opt_parameters opt) i;
       P \<leftarrow> h param;
       if grad P = None then Some h
       else if sgd_momentum (opt_state opt) > 0
       then for_loop 0 (tsize P) (sgd_momentum_body (opt_state opt) param i) h
       else for_loop 0 (tsize P) (sgd_plain_body (opt_state opt) param) h
     }"

definition sgd_step :: "heap \<Rightarrow> (addr list, 's, 'f, SGDState) Optimizer \<Rightarrow> heap option" where
  "sgd_step h opt = for_loop 0 (opt_num_parameters opt) (sgd_param opt) h"

definition adam_body ::
  "AdamState \<Rightarrow> real \<Rightarrow> real \<Rightarrow> addr \<Rightarrow> nat \<Rightarrow> nat \<Rightarrow> heap \<Rightarrow> heap option" where
  \<comment> \<open>the body of the loop over the elements of one parameter in \<^verbatim>\<open>adam_step\<close>\<close>
  "adam_body state bias_correction1 bias_correction2 param i j h =
     do {
       mi \<leftarrow> load (adam_m state) i;
       mj \<leftarrow> load_data h mi j;
       gj \<leftarrow> load_grad h param j;
       h1 \<leftarrow> store_data h mi j (adam_beta1 state * mj + (1 - adam_beta1 state) * gj);
       vi \<leftarrow> load (adam_v state) i;
       vj \<leftarrow> load_data h1 vi j;
       gj' \<leftarrow> load_grad h1 param j;
       h2 \<leftarrow> store_data h1 vi j (adam_beta2 state * vj + (1 - adam_beta2 state) * gj' * gj');
       mj' \<leftarrow> load_data h2 mi j;
       let m_hat = mj' / bias_correction1;
       vj' \<leftarrow> load_data h2 vi j;
       let v_hat = vj' / bias_correction2;
       pj \<leftarrow> load_data h2 param j;
       store_data h2 param j
         (pj - adam_learning_rate state * m_hat / (sqrt v_hat + adam_epsilon state))
     }"

definition adam_param ::
  "AdamState \<Rightarrow> real \<Rightarrow> real \<Rightarrow> addr list \<Rightarrow> nat \<Rightarrow> heap \<Rightarrow> heap option" where
  "adam_param state bias_correction1 bias_correction2 params i h =
     do {
       param \<leftarrow> load params i;
       P \<leftarrow> h param;
       if grad P = None then Some h
       else for_loop 0 (tsize P) (adam_body state bias_correction1 bias_correction2 param i) h
     }"

definition adam_step ::
  "heap \<Rightarrow> (addr list, 's, 'f, AdamState) Optimizer
     \<Rightarrow> (heap \<times> (addr list, 's, 'f, AdamState) Optimizer) option" where
  "adam_step h opt =
     (let state = (opt_state opt)\<lparr>adam_t := adam_t (opt_state opt) + 1\<rparr>;
          bias_correction1 = 1 - adam_beta1 state powi adam_t state;
          bias_correction2 = 1 - adam_beta2 state powi adam_t state
      in
      case for_loop 0 (opt_num_parameters opt)
             (adam_param state bias_correction1 bias_correction2 (opt_parameters opt)) h of
        None \<Rightarrow> None
      | Some h' \<Rightarrow> Some (h', opt\<lparr>opt_state := state\<rparr>))"

subsection \<open>What a step may touch\<close>

text \<open>
  Two heaps with the same gradient buffers everywhere, and the tensors a step can write for
  parameter \<open>k\<close>: none when the parameter has no gradient buffer in the starting heap,
  else the parameter and its state tensors.
\<close>

definition same_grads :: "heap \<Rightarrow> heap \<Rightarrow> bool" where
  "same_grads h t \<longleftrightarrow> (\<forall>q. map_option grad (t q) = map_option grad (h q))"

definition sgd_touched ::
  "heap \<Rightarrow> (addr list, 's, 'f, SGDState) Optimizer \<Rightarrow> nat \<Rightarrow> addr set" where
  "sgd_touched h opt k =
     (if k < length (opt_parameters opt)
         \<and> (\<exists>Q. h (opt_parameters opt ! k) = Some Q \<and> grad Q \<noteq> None)
      then {opt_parameters opt ! k}
           \<union> {vi. \<exists>vel. sgd_velocity (opt_state opt) = Some vel \<and> k < length vel \<and> vi = vel ! k}
      else {})"

definition adam_touched :: "heap \<Rightarrow> AdamState \<Rightarrow> addr list \<Rightarrow> nat \<Rightarrow> addr set" where
  "adam_touched h st params k =
     (if k < length params \<and> (\<exists>Q. h (params ! k) = Some Q \<and> grad Q \<noteq> None)
      then {params ! k} \<union> {mi. k < length (adam_m st) \<and> mi = adam_m st ! k}
           \<union> {vi. k < length (adam_v st) \<and> vi = adam_v st ! k}
      else {})"

section \<open>Accelerated operations: guards and fallback (webgpu_ops.c)\<close>

text \<open>
  An operand is a \<^verbatim>\<open>Tensor *\<close>, \<open>None\<close> for the null pointer; the guards only read
  \<^verbatim>\<open>ndim\<close> and \<^verbatim>\<open>shape\<close> (an array of \<^verbatim>\<open>ndim\<close> entries), so operands are passed by value here.
  The functions that \<^verbatim>\<open>webgpu_ops.c\<close> links against are the fields of \<open>ops_env\<close>: the
  reference implementations \<^verbatim>\<open>tensor_*_cpu\<close>, and, for what follows the guards (output
  allocation, upload, dispatch, readback, graph metadata), one function per kind of
  operation giving the returned tensor. \<open>'r\<close> is the type of a returned \<^verbatim>\<open>Tensor *\<close>.
  A function pointer in the operation registry is identified by the backend that registered
  it under the name.
\<close>

datatype backend = CPU | WEBGPU

record 'r ops_env =
  session :: WebGPUContext
  operation_registry :: "backend OperationRegistryEntry Registry"
  tensor_add_cpu :: "Tensor option \<Rightarrow> Tensor option \<Rightarrow> 'r"
  tensor_sub_cpu :: "Tensor option \<Rightarrow> Tensor option \<Rightarrow> 'r"
  tensor_mul_cpu :: "Tensor option \<Rightarrow> Tensor option \<Rightarrow> 'r"
  tensor_matmul_cpu :: "Tensor option \<Rightarrow> Tensor option \<Rightarrow> 'r"
  tensor_relu_cpu :: "Tensor option \<Rightarrow> 'r"
  tensor_sigmoid_cpu :: "Tensor option \<Rightarrow> 'r"
  tensor_tanh_cpu :: "Tensor option \<Rightarrow> 'r"
  tensor_softmax_cpu :: "Tensor option \<Rightarrow> 'r"
  device_binary :: "string \<Rightarrow> Tensor \<Rightarrow> Tensor \<Rightarrow> 'r"
  device_matmul :: "Tensor \<Rightarrow> Tensor \<Rightarrow> 'r"
  device_unary :: "string \<Rightarrow> Tensor \<Rightarrow> 'r"
  device_softmax :: "Tensor \<Rightarrow> 'r"

definition webgpu_register_ops ::
  "WebGPUContext \<Rightarrow> backend OperationRegistryEntry Registry
     \<Rightarrow> backend OperationRegistryEntry Registry" where
  "webgpu_register_ops ctx reg =
     (if webgpu_available ctx = 0 then reg
      else register_all reg
             [(''add'', Some WEBGPU, 10), (''sub'', Some WEBGPU, 10), (''mul'', Some WEBGPU, 10),
              (''matmul'', Some WEBGPU, 10), (''relu'', Some WEBGPU, 10),
              (''sigmoid'', Some WEBGPU, 10), (''tanh'', Some WEBGPU, 10),
              (''softmax'', Some WEBGPU, 10)])"

function shape_differs :: "Tensor \<Rightarrow> Tensor \<Rightarrow> nat \<Rightarrow> bool" where
  \<comment> \<open>\<^verbatim>\<open>for (; i < A->ndim; i++) if (A->shape[i] != B->shape[i]) return cpu_fallback(A, B);\<close>\<close>
  "shape_differs A B i =
     (if i < ndim A
      then (if shape A ! i \<noteq> shape B ! i then True else shape_differs A B (i + 1))
      else False)"
  by pat_completeness auto
termination
  by (relation "measure (\<lambda>(A, B, i). ndim A - i)") auto

declare shape_differs.simps [simp del]

definition elementwise_binary_op ::
  "WebGPUContext \<Rightarrow> Tensor option \<Rightarrow> Tensor option \<Rightarrow> (Tensor \<Rightarrow> Tensor \<Rightarrow> 'r)
     \<Rightarrow> (Tensor option \<Rightarrow> Tensor option \<Rightarrow> 'r) \<Rightarrow> 'r" where
  "elementwise_binary_op ctx A B device_path cpu_fallback =
     (case (A, B) of
        (Some a, Some b) \<Rightarrow>
          if webgpu_available ctx = 0 then cpu_fallback A B
          else if ndim a \<noteq> ndim b then cpu_fallback A B
          else if shape_differs a b 0 then cpu_fallback A B
          else device_path a b
      | _ \<Rightarrow> cpu_fallback A B)"

definition webgpu_tensor_add :: "'r ops_env \<Rightarrow> Tensor option \<Rightarrow> Tensor option \<Rightarrow> 'r" where
  "webgpu_tensor_add env A B =
     elementwise_binary_op (session env) A B (device_binary env ''add'') (tensor_add_cpu env)"

definition webgpu_tensor_sub :: "'r ops_env \<Rightarrow> Tensor option \<Rightarrow> Tensor option \<Rightarrow> 'r" where
  "webgpu_tensor_sub env A B =
     elementwise_binary_op (session env) A B (device_binary env ''sub'') (tensor_sub_cpu env)"

definition webgpu_tensor_mul :: "'r ops_env \<Rightarrow> Tensor option \<Rightarrow> Tensor option \<Rightarrow> 'r" where
  "webgpu_tensor_mul env A B =
     elementwise_binary_op (session env) A B (device_binary env ''mul'') (tensor_mul_cpu env)"

definition webgpu_tensor_matmul :: "'r ops_env \<Rightarrow> Tensor option \<Rightarrow> Tensor option \<Rightarrow> 'r" where
  "webgpu_tensor_matmul env A B =
     (case (A, B) of
        (Some a, Some b) \<Rightarrow>
          if webgpu_available (session env) = 0 then tensor_matmul_cpu env A B
          else if ndim a \<noteq> 2 \<or> ndim b \<noteq> 2 \<or> shape a ! 1 \<noteq> shape b ! 0
          then tensor_matmul_cpu env A B
          else device_matmul env a b
      | _ \<Rightarrow> tensor_matmul_cpu env A B)"

definition webgpu_tensor_softmax :: "'r ops_env \<Rightarrow> Tensor option \<Rightarrow> 'r" where
  "webgpu_tensor_softmax env Z =
     (case Z of
        Some z \<Rightarrow>
          if webgpu_available (session env) = 0 then tensor_softmax_cpu env Z
          else if ndim z < 2 then tensor_softmax_cpu env Z
          else device_softmax env z
      | None \<Rightarrow> tensor_softmax_cpu env Z)"

text \<open>
  \<^verbatim>\<open>elementwise_unary_op\<close> calls the \<^verbatim>\<open>cpu_fallback\<close> it is given; a call that does not
  return has the result \<open>None\<close>.
\<close>

definition elementwise_unary_op ::
  "WebGPUContext \<Rightarrow> Tensor option \<Rightarrow> (Tensor \<Rightarrow> 'r) \<Rightarrow> (Tensor option \<Rightarrow> 'r option)
     \<Rightarrow> 'r option" where
  "elementwise_unary_op ctx Z device_path cpu_fallback =
     (case Z of
        Some z \<Rightarrow> if webgpu_available ctx = 0 then cpu_fallback Z else Some (device_path z)
      | None \<Rightarrow> cpu_fallback Z)"

text \<open>
  Modelled from the spec: the public entry points \<^verbatim>\<open>tensor_relu\<close>, \<^verbatim>\<open>tensor_sigmoid\<close> and
  \<^verbatim>\<open>tensor_tanh\<close> of \<^verbatim>\<open>ops.c\<close>, which is not among the sources. A call of an operation
  function resolves the highest-priority implementation registered for the name and runs it;
  with nothing registered for the name it runs the reference implementation. This is
  \<open>dispatch_unary\<close>. The accelerated implementation it may resolve to is the one of
  \<^verbatim>\<open>webgpu_ops.c\<close>: \<^verbatim>\<open>webgpu_tensor_relu(Z)\<close> is
  \<^verbatim>\<open>elementwise_unary_op(Z, "relu", SHADER_RELU, backward_relu, tensor_relu)\<close>, whose fallback
  is that public entry point again; likewise for sigmoid and tanh. The two call each other,
  so they are defined together, with the depth of the call stack that is left as fuel:
  the result \<open>None\<close> at every depth means that the call never returns.
\<close>

fun dispatch_unary ::
      "nat \<Rightarrow> 'r ops_env \<Rightarrow> string \<Rightarrow> (Tensor option \<Rightarrow> 'r) \<Rightarrow> Tensor option \<Rightarrow> 'r option"
  and webgpu_unary ::
      "nat \<Rightarrow> 'r ops_env \<Rightarrow> string \<Rightarrow> (Tensor option \<Rightarrow> 'r) \<Rightarrow> Tensor option \<Rightarrow> 'r option"
where
  "dispatch_unary 0 env op_name cpu Z = None"
| "dispatch_unary (Suc fuel) env op_name cpu Z =
     (case get_operation_fn (operation_registry env) op_name of
        Some WEBGPU \<Rightarrow> webgpu_unary fuel env op_name cpu Z
      | Some CPU \<Rightarrow> Some (cpu Z)
      | None \<Rightarrow> Some (cpu Z))"
| "webgpu_unary 0 env op_name cpu Z = None"
| "webgpu_unary (Suc fuel) env op_name cpu Z =
     elementwise_unary_op (session env) Z (device_unary env op_name)
       (\<lambda>Z'. dispatch_unary fuel env op_name cpu Z')"

definition tensor_relu :: "nat \<Rightarrow> 'r ops_env \<Rightarrow> Tensor option \<Rightarrow> 'r option" where
  "tensor_relu fuel env Z = dispatch_unary fuel env ''relu'' (tensor_relu_cpu env) Z"

definition tensor_sigmoid :: "nat \<Rightarrow> 'r ops_env \<Rightarrow> Tensor option \<Rightarrow> 'r option" where
  "tensor_sigmoid fuel env Z = dispatch_unary fuel env ''sigmoid'' (tensor_sigmoid_cpu env) Z"

definition tensor_tanh :: "nat \<Rightarrow> 'r ops_env \<Rightarrow> Tensor option \<Rightarrow> 'r option" where
  "tensor_tanh fuel env Z = dispatch_unary fuel env ''tanh'' (tensor_tanh_cpu env) Z"

definition webgpu_tensor_relu :: "nat \<Rightarrow> 'r ops_env \<Rightarrow> Tensor option \<Rightarrow> 'r option" where
  "webgpu_tensor_relu fuel env Z = webgpu_unary fuel env ''relu'' (tensor_relu_cpu env) Z"

definition webgpu_tensor_sigmoid :: "nat \<Rightarrow> 'r ops_env \<Rightarrow> Tensor option \<Rightarrow> 'r option" where
  "webgpu_tensor_sigmoid fuel env Z = webgpu_unary fuel env ''sigmoid'' (tensor_sigmoid_cpu env) Z"

definition webgpu_tensor_tanh :: "nat \<Rightarrow> 'r ops_env \<Rightarrow> Tensor option \<Rightarrow> 'r option" where
  "webgpu_tensor_tanh fuel env Z = webgpu_unary fuel env ''tanh'' (tensor_tanh_cpu env) Z"

section \<open>Softmax on the accelerator: launch parameters and addressing\<close>

text \<open>
  The part of \<^verbatim>\<open>webgpu_tensor_softmax\<close> that computes the uniform block and the number of
  workgroups, in \<^verbatim>\<open>uint32_t\<close> arithmetic (a \<^verbatim>\<open>size_t\<close> shape entry is truncated); the
  division by a zero batch is undefined, \<open>None\<close>. The guards before it let only tensors
  of at least two dimensions through.
\<close>

function stride_loop :: "Tensor \<Rightarrow> nat \<Rightarrow> 32 word \<Rightarrow> 32 word" where
  \<comment> \<open>\<^verbatim>\<open>for (; i < Z->ndim; i++) stride *= Z->shape[i];\<close>\<close>
  "stride_loop Z i stride =
     (if i < ndim Z then stride_loop Z (i + 1) (stride * word_of_nat (shape Z ! i)) else stride)"
  by pat_completeness auto
termination
  by (relation "measure (\<lambda>(Z, i, stride). ndim Z - i)") auto

declare stride_loop.simps [simp del]

record softmax_launch =
  launch_batch :: "32 word"
  launch_size :: "32 word"
  launch_stride :: "32 word"

definition webgpu_softmax_launch :: "Tensor \<Rightarrow> softmax_launch option" where
  "webgpu_softmax_launch Z =
     (let batch = word_of_nat (shape Z ! 0);
          sz = word_of_nat (shape Z ! (ndim Z - 1));
          stride = stride_loop Z 1 sz
      in if batch = 0 then None
         else Some \<lparr>launch_batch = batch, launch_size = sz, launch_stride = stride div batch\<rparr>)"

text \<open>
  The kernel \<^verbatim>\<open>SHADER_SOFTMAX\<close> runs one workgroup per \<^verbatim>\<open>workgroup_id.x < batch\<close>. With
  \<^verbatim>\<open>offset = batch_idx * params.stride\<close>, its 256 invocations together read
  \<^verbatim>\<open>input[offset + i]\<close> and write \<^verbatim>\<open>output[offset + i]\<close> for every \<^verbatim>\<open>i < params.size\<close>, and
  nothing else: these are the elements the workgroup takes for its row.
\<close>

definition softmax_workgroup_row :: "softmax_launch \<Rightarrow> 32 word \<Rightarrow> nat list" where
  "softmax_workgroup_row p batch_idx =
     map (\<lambda>i. unat (batch_idx * launch_stride p + word_of_nat i)) [0..<unat (launch_size p)]"

definition webgpu_softmax_rows :: "Tensor \<Rightarrow> nat list list option" where
  "webgpu_softmax_rows Z =
     (case webgpu_softmax_launch Z of
        None \<Rightarrow> None
      | Some p \<Rightarrow>
          Some (map (\<lambda>b. softmax_workgroup_row p (word_of_nat b)) [0..<unat (launch_batch p)]))"

text \<open>
  Modelled from the spec: the reference implementation \<^verbatim>\<open>tensor_softmax_cpu\<close> of \<^verbatim>\<open>ops.c\<close> is
  not among the sources. Its rows, as the specification (one row per workgroup, each row
  summing to one) and the unit test \<^verbatim>\<open>tensor_softmax_2d\<close> take them: the last dimension is the
  row, and the rows follow each other in the data buffer.
\<close>

definition row_major_rows :: "Tensor \<Rightarrow> nat list list" where
  "row_major_rows Z =
     (let sz = shape Z ! (ndim Z - 1) in
      map (\<lambda>b. map (\<lambda>i. b * sz + i) [0..<sz]) [0..<tsize Z div sz])"

chapter \<open>Properties\<close>

section \<open>Registry\<close>

lemma chain_get_chain_set:
  "chain_set c key val = Some c' \<Longrightarrow>
   chain_get c' key' = (if key' = key then Some val else chain_get c key')"
  by (induction c arbitrary: c') (auto split: if_splits option.splits)

lemma chain_set_None: "chain_set c key val = None \<longleftrightarrow> chain_get c key = None"
  by (induction c) (auto split: option.splits if_splits)

lemma registry_get_set:
  "registry_get (registry_set reg key val) key' =
     (if key' = key then Some val else registry_get reg key')"
  by (auto simp: registry_get_def registry_set_def Let_def chain_get_chain_set
           split: option.splits)

lemma registry_get_register:
  "registry_get (register_operation_backend reg name fn prio) name' =
     (if name' = name \<and> (case registry_get reg name of None \<Rightarrow> True | Some e \<Rightarrow> priority e < prio)
      then Some \<lparr>op_fn = fn, priority = prio\<rparr>
      else registry_get reg name')"
  by (auto simp: register_operation_backend_def registry_get_set split: option.splits)

lemma register_all_snoc:
  "register_all reg (rs @ [(name, fn, prio)]) =
     register_operation_backend (register_all reg rs) name fn prio"
  by (induction reg rs rule: register_all.induct) auto

lemma first_with_highest_priority_single: "first_with_highest_priority [r] = r"
  by (simp add: first_with_highest_priority_def)

lemma first_with_highest_priority_prio:
  fixes xs :: "(string \<times> 'f option \<times> int) list"
  assumes "xs \<noteq> []"
  shows "snd (snd (first_with_highest_priority xs)) = Max (set (map (\<lambda>r. snd (snd r)) xs))"
proof -
  let ?pr = "\<lambda>r::(string \<times> 'f option \<times> int). snd (snd r)"
  let ?m = "Max (set (map ?pr xs))"
  have "?m \<in> set (map ?pr xs)" using assms by (intro Max_in) auto
  then have ne: "filter (\<lambda>r. ?pr r = ?m) xs \<noteq> []"
    by (force simp: filter_empty_conv)
  then have "hd (filter (\<lambda>r. ?pr r = ?m) xs) \<in> set (filter (\<lambda>r. ?pr r = ?m) xs)"
    by (rule hd_in_set)
  then show ?thesis
    unfolding first_with_highest_priority_def by simp
qed

lemma first_with_highest_priority_snoc:
  fixes xs :: "(string \<times> 'f option \<times> int) list"
  assumes "xs \<noteq> []"
  shows "first_with_highest_priority (xs @ [r]) =
           (if snd (snd (first_with_highest_priority xs)) < snd (snd r) then r
            else first_with_highest_priority xs)"
proof -
  let ?pr = "\<lambda>r::(string \<times> 'f option \<times> int). snd (snd r)"
  let ?m = "Max (set (map ?pr xs))"
  have fin: "finite (set (map ?pr xs))" "set (map ?pr xs) \<noteq> {}" using assms by auto
  have Msnoc: "Max (set (map ?pr (xs @ [r]))) = max ?m (?pr r)"
    using fin by (simp add: max.commute)
  have le: "\<And>x. x \<in> set xs \<Longrightarrow> ?pr x \<le> ?m"
    using fin by (intro Max_ge) auto
  have "?m \<in> set (map ?pr xs)" using fin by (intro Max_in) auto
  then have ne: "filter (\<lambda>x. ?pr x = ?m) xs \<noteq> []"
    by (force simp: filter_empty_conv)
  show ?thesis
  proof (cases "?m < ?pr r")
    case True
    then have "filter (\<lambda>x. ?pr x = max ?m (?pr r)) xs = []"
      using le by (force simp: filter_empty_conv max_def)
    then have "first_with_highest_priority (xs @ [r]) = r"
      unfolding first_with_highest_priority_def Msnoc using True by (simp add: max_def)
    then show ?thesis
      using True by (simp add: first_with_highest_priority_prio[OF assms])
  next
    case False
    then have mm: "max ?m (?pr r) = ?m" by (simp add: max_def)
    have "first_with_highest_priority (xs @ [r]) = first_with_highest_priority xs"
      unfolding first_with_highest_priority_def Msnoc mm using ne by simp
    then show ?thesis
      using False by (simp add: first_with_highest_priority_prio[OF assms])
  qed
qed

lemma registry_get_register_all:
  "registry_get (register_all empty_registry rs) name =
     (let seen = filter (\<lambda>r. fst r = name) rs in
      if seen = [] then None
      else Some \<lparr>op_fn = fst (snd (first_with_highest_priority seen)),
                 priority = snd (snd (first_with_highest_priority seen))\<rparr>)"
proof (induction rs rule: rev_induct)
  case Nil
  show ?case by (simp add: registry_get_def empty_registry_def)
next
  case (snoc r rs)
  obtain n f p where r: "r = (n, f, p)" by (cases r)
  show ?case
  proof (cases "n = name")
    case False
    with snoc r show ?thesis
      by (simp add: register_all_snoc registry_get_register)
  next
    case True
    show ?thesis
    proof (cases "filter (\<lambda>r. fst r = name) rs = []")
      case True
      with snoc r \<open>n = name\<close> show ?thesis
        by (simp add: register_all_snoc registry_get_register Let_def
                      first_with_highest_priority_single)
    next
      case False
      from snoc r \<open>n = name\<close> False show ?thesis
        by (simp add: register_all_snoc registry_get_register Let_def
                      first_with_highest_priority_snoc[OF False])
    qed
  qed
qed

text \<open>
  Claim C2. \<^verbatim>\<open>register_operation_backend\<close> installs the new implementation for a name
  exactly when no entry is stored for the name yet or the new priority is strictly greater
  than the stored one, and leaves every other name alone; a registration whose priority is
  equal or lower leaves the whole registry as it was; and after any run of registrations on
  the empty registry, \<^verbatim>\<open>get_operation_fn\<close> returns the implementation with the
  highest priority seen for the name (the earliest one on a tie).
\<close>

theorem register_operation_backend_highest_priority:
  "registry_get (register_operation_backend reg name fn prio) name =
     (case registry_get reg name of
        None \<Rightarrow> Some \<lparr>op_fn = fn, priority = prio\<rparr>
      | Some existing \<Rightarrow>
          if priority existing < prio then Some \<lparr>op_fn = fn, priority = prio\<rparr>
          else Some existing)
   \<and> (name' \<noteq> name \<longrightarrow>
        registry_get (register_operation_backend reg name fn prio) name' = registry_get reg name')
   \<and> (registry_get reg name = Some existing \<and> prio \<le> priority existing \<longrightarrow>
        register_operation_backend reg name fn prio = reg)
   \<and> get_operation_fn (register_all empty_registry rs) name = highest_priority_seen rs name"
proof (intro conjI impI)
  show "registry_get (register_operation_backend reg name fn prio) name =
     (case registry_get reg name of
        None \<Rightarrow> Some \<lparr>op_fn = fn, priority = prio\<rparr>
      | Some existing \<Rightarrow>
          if priority existing < prio then Some \<lparr>op_fn = fn, priority = prio\<rparr>
          else Some existing)"
    by (simp add: registry_get_register split: option.splits)
next
  assume "name' \<noteq> name"
  then show "registry_get (register_operation_backend reg name fn prio) name' = registry_get reg name'"
    by (simp add: registry_get_register)
next
  assume "registry_get reg name = Some existing \<and> prio \<le> priority existing"
  then show "register_operation_backend reg name fn prio = reg"
    by (simp add: register_operation_backend_def)
next
  show "get_operation_fn (register_all empty_registry rs) name = highest_priority_seen rs name"
    by (simp add: get_operation_fn_def highest_priority_seen_def registry_get_register_all Let_def)
qed

theorem register_operation_backend_highest_priority_witness:
  "''relu'' \<noteq> ''add''
   \<and> get_operation_fn (register_all empty_registry [(''add'', Some (0::nat), 0), (''add'', Some 10, 10)]) ''add'' = Some 10
   \<and> register_operation_backend
         (register_all empty_registry [(''add'', Some (0::nat), 0), (''add'', Some 10, 10)]) ''add'' (Some 5) 5
       = register_all empty_registry [(''add'', Some 0, 0), (''add'', Some 10, 10)]
   \<and> get_operation_fn
         (register_all empty_registry [(''add'', Some (0::nat), 0), (''add'', Some 10, 10), (''add'', Some 5, 5)]) ''add''
       = Some 10"
proof -
  let ?reg = "register_all empty_registry [(''add'', Some (0::nat), 0), (''add'', Some 10, 10)]"
  have g: "registry_get ?reg ''add'' = Some \<lparr>op_fn = Some 10, priority = 10\<rparr>"
    by (simp add: registry_get_def registry_set_def register_operation_backend_def
          empty_registry_def hash_def REGISTRY_SIZE_def char_to_int_def)
  have hp: "highest_priority_seen [(''add'', Some (0::nat), 0), (''add'', Some 10, 10)] ''add'' = Some 10"
       "highest_priority_seen [(''add'', Some (0::nat), 0), (''add'', Some 10, 10), (''add'', Some 5, 5)] ''add'' = Some 10"
    by (simp_all add: highest_priority_seen_def first_with_highest_priority_def)
  from register_operation_backend_highest_priority
         [of ?reg "''add''" "Some 5" 5 "''relu''" "\<lparr>op_fn = Some 10, priority = 10\<rparr>"
             "[(''add'', Some (0::nat), 0), (''add'', Some 10, 10)]"]
       register_operation_backend_highest_priority
         [of ?reg "''add''" "Some 5" 5 "''relu''" "\<lparr>op_fn = Some 10, priority = 10\<rparr>"
             "[(''add'', Some (0::nat), 0), (''add'', Some 10, 10), (''add'', Some 5, 5)]"]
       g hp
  show ?thesis by simp
qed

section \<open>Optimizer constructor\<close>

text \<open>
  Claim C9. \<^verbatim>\<open>optimizer_create\<close> returns \<^verbatim>\<open>NULL\<close> whenever the parameter array is null,
  the number of parameters is zero, nothing is registered under the configured name, or one
  of the three lookups (init-state, step, free-state) yields a null function; and whenever
  it returns an optimizer, all three lookups succeeded, the init-state function returned a
  state, and the optimizer holds exactly these.
\<close>

theorem optimizer_create_null_unless_registered:
  "(parameters = None \<or> num_parameters = 0
      \<or> registry_get reg (cfg_name config) = None
      \<or> get_optimizer_init_state_fn reg (cfg_name config) = None
      \<or> get_optimizer_step_fn reg (cfg_name config) = None
      \<or> get_optimizer_free_state_fn reg (cfg_name config) = None
    \<longrightarrow> optimizer_create reg malloc_ok parameters num_parameters config = None)
   \<and> (optimizer_create reg malloc_ok parameters num_parameters config = Some opt
    \<longrightarrow> (\<exists>params init_fn stp_fn free_fn st.
           parameters = Some params \<and> 0 < num_parameters
         \<and> get_optimizer_init_state_fn reg (cfg_name config) = Some init_fn
         \<and> get_optimizer_step_fn reg (cfg_name config) = Some stp_fn
         \<and> get_optimizer_free_state_fn reg (cfg_name config) = Some free_fn
         \<and> init_fn params num_parameters (cfg_params config) = Some st
         \<and> opt = \<lparr>opt_name = cfg_name config, opt_parameters = params,
                   opt_num_parameters = num_parameters, opt_step = stp_fn,
                   opt_free_state = free_fn, opt_state = st\<rparr>))"
proof (intro conjI impI)
  assume "parameters = None \<or> num_parameters = 0
      \<or> registry_get reg (cfg_name config) = None
      \<or> get_optimizer_init_state_fn reg (cfg_name config) = None
      \<or> get_optimizer_step_fn reg (cfg_name config) = None
      \<or> get_optimizer_free_state_fn reg (cfg_name config) = None"
  then show "optimizer_create reg malloc_ok parameters num_parameters config = None"
    by (auto simp: optimizer_create_def get_optimizer_init_state_fn_def
          get_optimizer_step_fn_def get_optimizer_free_state_fn_def
          split: option.splits)
next
  assume "optimizer_create reg malloc_ok parameters num_parameters config = Some opt"
  then show "\<exists>params init_fn stp_fn free_fn st.
           parameters = Some params \<and> 0 < num_parameters
         \<and> get_optimizer_init_state_fn reg (cfg_name config) = Some init_fn
         \<and> get_optimizer_step_fn reg (cfg_name config) = Some stp_fn
         \<and> get_optimizer_free_state_fn reg (cfg_name config) = Some free_fn
         \<and> init_fn params num_parameters (cfg_params config) = Some st
         \<and> opt = \<lparr>opt_name = cfg_name config, opt_parameters = params,
                   opt_num_parameters = num_parameters, opt_step = stp_fn,
                   opt_free_state = free_fn, opt_state = st\<rparr>"
    by (auto simp: optimizer_create_def split: option.splits if_splits)
qed

theorem optimizer_create_null_unless_registered_witness:
  "optimizer_create
     (register_optimizer empty_registry ''sgd'' (Some (\<lambda>(p::nat list) (n::nat) (c::real). Some (c, n))) (Some (1::nat)) (Some (2::nat)))
     True (Some [10, 11]) 2 \<lparr>cfg_name = ''adam'', cfg_params = 1 / 100\<rparr> = None
   \<and> optimizer_create
     (register_optimizer empty_registry ''sgd'' (Some (\<lambda>(p::nat list) (n::nat) (c::real). Some (c, n))) (Some (1::nat)) (Some (2::nat)))
     True (Some [10, 11]) 2 \<lparr>cfg_name = ''sgd'', cfg_params = 1 / 100\<rparr>
     = Some \<lparr>opt_name = ''sgd'', opt_parameters = [10, 11], opt_num_parameters = 2, opt_step = 1,
             opt_free_state = 2, opt_state = (1 / 100, 2)\<rparr>
   \<and> get_optimizer_step_fn
     (register_optimizer empty_registry ''sgd'' (Some (\<lambda>(p::nat list) (n::nat) (c::real). Some (c, n))) (Some (1::nat)) (Some (2::nat)))
     ''sgd'' = Some 1"
proof -
  let ?reg = "register_optimizer empty_registry ''sgd''
                (Some (\<lambda>(p::nat list) (n::nat) (c::real). Some (c, n))) (Some (1::nat)) (Some (2::nat))"
  have none: "registry_get ?reg ''adam'' = None"
    by (simp add: register_optimizer_def registry_get_set)
       (simp add: registry_get_def empty_registry_def)
  have some: "optimizer_create ?reg True (Some [10, 11]) 2 \<lparr>cfg_name = ''sgd'', cfg_params = 1 / 100\<rparr>
     = Some \<lparr>opt_name = ''sgd'', opt_parameters = [10, 11], opt_num_parameters = 2, opt_step = 1,
             opt_free_state = 2, opt_state = (1 / 100, 2)\<rparr>"
    by (simp add: optimizer_create_def register_optimizer_def registry_get_set
          get_optimizer_init_state_fn_def get_optimizer_step_fn_def
          get_optimizer_free_state_fn_def)
  from optimizer_create_null_unless_registered
         [of "Some [10, 11]" 2 ?reg "\<lparr>cfg_name = ''adam'', cfg_params = 1 / 100\<rparr>" True]
       optimizer_create_null_unless_registered
         [of "Some [10, 11]" 2 ?reg "\<lparr>cfg_name = ''sgd'', cfg_params = 1 / 100\<rparr>" True
             "\<lparr>opt_name = ''sgd'', opt_parameters = [10, 11], opt_num_parameters = 2, opt_step = 1,
             opt_free_state = 2, opt_state = (1 / 100, 2)\<rparr>"]
       none some
  show ?thesis by auto
qed

section \<open>WebGPU session\<close>

lemma poll_events_eq:
  "poll_events fires budget t =
     (if budget \<le> t then t
      else case fires of None \<Rightarrow> budget | Some k \<Rightarrow> if k \<le> t then t else min k budget)"
proof (induction fires budget t rule: poll_events.induct)
  case (1 fires budget timeout)
  show ?case
  proof (cases "\<not> callback_done fires timeout \<and> timeout < budget")
    case True
    then show ?thesis
      using "1.IH" by (subst poll_events.simps) (auto simp: callback_done_def split: option.splits)
  next
    case False
    then show ?thesis
      by (subst poll_events.simps) (auto simp: callback_done_def split: option.splits)
  qed
qed

lemma poll_timed_out_iff:
  "poll_timed_out fires budget \<longleftrightarrow> budget = 0 \<or> (case fires of None \<Rightarrow> True | Some k \<Rightarrow> budget \<le> k)"
  by (auto simp: poll_timed_out_def poll_events_eq split: option.splits)

text \<open>
  Claim C8. \<^verbatim>\<open>webgpu_init\<close> is idempotent: called on an initialized session it returns 0
  at once, writes nothing, and leaves the whole context (instance, adapter, device, queue and
  the initialized flag) as it was, whatever the runtime would answer; so does every run of
  further calls; and a call that returns 0 leaves a context on which the next call does so.
\<close>

theorem webgpu_init_idempotent:
  "(ctx_initialized ctx \<noteq> 0 \<longrightarrow> webgpu_init env ctx = (0, ctx, []))
   \<and> (ctx_initialized ctx \<noteq> 0 \<longrightarrow> webgpu_init_calls ctx envs = ctx)
   \<and> (fst (webgpu_init env ctx) = 0 \<longrightarrow>
        webgpu_init env' (fst (snd (webgpu_init env ctx))) = (0, fst (snd (webgpu_init env ctx)), []))"
proof (intro conjI impI)
  assume "ctx_initialized ctx \<noteq> 0"
  then show "webgpu_init env ctx = (0, ctx, [])"
    by (simp add: webgpu_init_def)
next
  assume "ctx_initialized ctx \<noteq> 0"
  then show "webgpu_init_calls ctx envs = ctx"
    by (induction envs) (simp_all add: webgpu_init_def)
next
  assume ok: "fst (webgpu_init env ctx) = 0"
  have "ctx_initialized (fst (snd (webgpu_init env ctx))) \<noteq> 0"
    using ok
    by (auto simp: webgpu_init_def Let_def split: if_splits sum.splits prod.splits)
  then show "webgpu_init env' (fst (snd (webgpu_init env ctx))) = (0, fst (snd (webgpu_init env ctx)), [])"
    by (simp add: webgpu_init_def)
qed

theorem webgpu_init_idempotent_witness:
  "webgpu_init
     \<lparr>create_instance = None,
      metal_adapter = \<lparr>fires_after = None, reply_success = False, reply_handle = None\<rparr>,
      fallback_adapter = \<lparr>fires_after = None, reply_success = False, reply_handle = None\<rparr>,
      device_request = \<lparr>fires_after = None, reply_success = False, reply_handle = None\<rparr>,
      device_queue = None\<rparr>
     (fst (snd (webgpu_init
        \<lparr>create_instance = Some 1,
         metal_adapter = \<lparr>fires_after = Some 3, reply_success = True, reply_handle = Some 2\<rparr>,
         fallback_adapter = \<lparr>fires_after = None, reply_success = False, reply_handle = None\<rparr>,
         device_request = \<lparr>fires_after = Some 0, reply_success = True, reply_handle = Some 3\<rparr>,
         device_queue = Some 4\<rparr>
        g_webgpu_ctx_initial)))
   = (0, \<lparr>ctx_instance = Some 1, ctx_adapter = Some 2, ctx_device = Some 3, ctx_queue = Some 4,
          ctx_initialized = 1\<rparr>, [])"
proof -
  let ?env = "\<lparr>create_instance = Some 1,
         metal_adapter = \<lparr>fires_after = Some 3, reply_success = True, reply_handle = Some 2\<rparr>,
         fallback_adapter = \<lparr>fires_after = None, reply_success = False, reply_handle = None\<rparr>,
         device_request = \<lparr>fires_after = Some 0, reply_success = True, reply_handle = Some 3\<rparr>,
         device_queue = Some 4\<rparr>"
  have first: "webgpu_init ?env g_webgpu_ctx_initial =
      (0, \<lparr>ctx_instance = Some 1, ctx_adapter = Some 2, ctx_device = Some 3, ctx_queue = Some 4,
          ctx_initialized = 1\<rparr>, [])"
    by (simp add: webgpu_init_def webgpu_init_adapter_def poll_events_eq callback_log_def
          callback_handle_def callback_done_def g_webgpu_ctx_initial_def Let_def)
  let ?none = "\<lparr>create_instance = None,
               metal_adapter = \<lparr>fires_after = None, reply_success = False, reply_handle = None\<rparr>,
               fallback_adapter = \<lparr>fires_after = None, reply_success = False, reply_handle = None\<rparr>,
               device_request = \<lparr>fires_after = None, reply_success = False, reply_handle = None\<rparr>,
               device_queue = None\<rparr>"
  from webgpu_init_idempotent
         [where ctx = "\<lparr>ctx_instance = Some 1, ctx_adapter = Some 2, ctx_device = Some 3,
                         ctx_queue = Some 4, ctx_initialized = 1\<rparr>"
            and env = ?none and envs = "[?none, ?env]" and env' = ?none]
       webgpu_init_idempotent
         [where ctx = g_webgpu_ctx_initial and env = ?env and envs = "[]" and env' = ?none]
       first
  show ?thesis by simp
qed

lemma webgpu_init_adapter_timeout:
  "poll_timed_out (fires_after (metal_adapter env)) 1000 \<Longrightarrow>
   webgpu_init_adapter env =
     Inl (callback_log ''WebGPU adapter request failed'' (metal_adapter env)
            (poll_events (fires_after (metal_adapter env)) 1000 0)
          @ [''Timeout waiting for adapter!''])"
  by (simp add: webgpu_init_adapter_def poll_timed_out_def Let_def)

lemma webgpu_init_fallback_adapter_timeout:
  "\<not> poll_timed_out (fires_after (metal_adapter env)) 1000 \<Longrightarrow>
   callback_handle (metal_adapter env) (poll_events (fires_after (metal_adapter env)) 1000 0) = None \<Longrightarrow>
   poll_timed_out (fires_after (fallback_adapter env)) 1000 \<Longrightarrow>
   \<exists>msgs. webgpu_init_adapter env = Inl (msgs @ [''Timeout waiting for fallback adapter!''])"
  by (simp add: webgpu_init_adapter_def poll_timed_out_def Let_def)

text \<open>
  Claim C4, as amended. When the staging-buffer map loop of \<^verbatim>\<open>webgpu_read_buffer\<close>
  exceeds its budget of 10000 polls, the timeout is logged and the call returns with the
  destination buffer exactly as it was, and nothing is reported to the caller. When a loop
  of the session bring-up in \<^verbatim>\<open>webgpu_init\<close> (adapter, fallback adapter, device) exceeds
  its budget of 1000 polls, the timeout is logged as the last message, the handles acquired so
  far are reset to null, the session stays uninitialized, and \<^verbatim>\<open>webgpu_init\<close> returns -1
  to its caller.
\<close>

theorem poll_budget_exceeded:
  "(webgpu_available ctx \<noteq> 0 \<and> poll_timed_out (map_fires_after menv) 10000 \<longrightarrow>
      webgpu_read_buffer ctx menv (Some buf) (Some dat) sz
        = (Some dat, [''Timeout waiting for buffer map!'']))
   \<and> (ctx_initialized ctx = 0 \<and> create_instance env \<noteq> None
        \<and> poll_timed_out (fires_after (metal_adapter env)) 1000 \<longrightarrow>
      fst (webgpu_init env ctx) = - 1
      \<and> fst (snd (webgpu_init env ctx)) = ctx\<lparr>ctx_instance := None\<rparr>
      \<and> last (snd (snd (webgpu_init env ctx))) = ''Timeout waiting for adapter!'')
   \<and> (ctx_initialized ctx = 0 \<and> create_instance env \<noteq> None
        \<and> \<not> poll_timed_out (fires_after (metal_adapter env)) 1000
        \<and> callback_handle (metal_adapter env) (poll_events (fires_after (metal_adapter env)) 1000 0) = None
        \<and> poll_timed_out (fires_after (fallback_adapter env)) 1000 \<longrightarrow>
      fst (webgpu_init env ctx) = - 1
      \<and> fst (snd (webgpu_init env ctx)) = ctx\<lparr>ctx_instance := None\<rparr>
      \<and> last (snd (snd (webgpu_init env ctx))) = ''Timeout waiting for fallback adapter!'')
   \<and> (ctx_initialized ctx = 0 \<and> create_instance env \<noteq> None
        \<and> webgpu_init_adapter env = Inr (adapter, msgs)
        \<and> poll_timed_out (fires_after (device_request env)) 1000 \<longrightarrow>
      fst (webgpu_init env ctx) = - 1
      \<and> fst (snd (webgpu_init env ctx)) = ctx\<lparr>ctx_instance := None, ctx_adapter := None\<rparr>
      \<and> last (snd (snd (webgpu_init env ctx))) = ''Timeout waiting for device!'')"
proof (intro conjI impI)
  assume "webgpu_available ctx \<noteq> 0 \<and> poll_timed_out (map_fires_after menv) 10000"
  then show "webgpu_read_buffer ctx menv (Some buf) (Some dat) sz
        = (Some dat, [''Timeout waiting for buffer map!''])"
    by (simp add: webgpu_read_buffer_def poll_timed_out_def)
next
  assume a: "ctx_initialized ctx = 0 \<and> create_instance env \<noteq> None
        \<and> poll_timed_out (fires_after (metal_adapter env)) 1000"
  then have init: "webgpu_init env ctx =
      (- 1, ctx\<lparr>ctx_instance := None\<rparr>,
       callback_log ''WebGPU adapter request failed'' (metal_adapter env)
            (poll_events (fires_after (metal_adapter env)) 1000 0)
          @ [''Timeout waiting for adapter!''])"
    by (auto simp: webgpu_init_def webgpu_init_adapter_timeout Let_def)
  show "fst (webgpu_init env ctx) = - 1" by (simp add: init)
  show "fst (snd (webgpu_init env ctx)) = ctx\<lparr>ctx_instance := None\<rparr>" by (simp add: init)
  show "last (snd (snd (webgpu_init env ctx))) = ''Timeout waiting for adapter!''" by (simp add: init)
next
  assume a: "ctx_initialized ctx = 0 \<and> create_instance env \<noteq> None
        \<and> \<not> poll_timed_out (fires_after (metal_adapter env)) 1000
        \<and> callback_handle (metal_adapter env) (poll_events (fires_after (metal_adapter env)) 1000 0) = None
        \<and> poll_timed_out (fires_after (fallback_adapter env)) 1000"
  then obtain m where "webgpu_init_adapter env = Inl (m @ [''Timeout waiting for fallback adapter!''])"
    using webgpu_init_fallback_adapter_timeout by blast
  with a have init: "webgpu_init env ctx =
      (- 1, ctx\<lparr>ctx_instance := None\<rparr>, m @ [''Timeout waiting for fallback adapter!''])"
    by (auto simp: webgpu_init_def Let_def)
  show "fst (webgpu_init env ctx) = - 1" by (simp add: init)
  show "fst (snd (webgpu_init env ctx)) = ctx\<lparr>ctx_instance := None\<rparr>" by (simp add: init)
  show "last (snd (snd (webgpu_init env ctx))) = ''Timeout waiting for fallback adapter!''"
    by (simp add: init)
next
  assume a: "ctx_initialized ctx = 0 \<and> create_instance env \<noteq> None
        \<and> webgpu_init_adapter env = Inr (adapter, msgs)
        \<and> poll_timed_out (fires_after (device_request env)) 1000"
  then have init: "webgpu_init env ctx =
      (- 1, ctx\<lparr>ctx_instance := None, ctx_adapter := None\<rparr>,
       (msgs @ callback_log ''WebGPU device request failed'' (device_request env)
                 (poll_events (fires_after (device_request env)) 1000 0))
       @ [''Timeout waiting for device!''])"
    by (auto simp: webgpu_init_def poll_timed_out_def Let_def)
  show "fst (webgpu_init env ctx) = - 1" by (simp add: init)
  show "fst (snd (webgpu_init env ctx)) = ctx\<lparr>ctx_instance := None, ctx_adapter := None\<rparr>"
    by (simp add: init)
  show "last (snd (snd (webgpu_init env ctx))) = ''Timeout waiting for device!''"
    by (simp only: init snd_conv last_snoc)
qed

theorem poll_budget_exceeded_witness:
  "webgpu_read_buffer (g_webgpu_ctx_initial\<lparr>ctx_initialized := 1\<rparr>)
       \<lparr>map_fires_after = None, mapped_range = Some [1, 2, 3::nat]\<rparr> (Some 7) (Some [0, 0, 0]) 3
     = (Some [0, 0, 0], [''Timeout waiting for buffer map!''])
   \<and> fst (webgpu_init
       \<lparr>create_instance = Some 1,
        metal_adapter = \<lparr>fires_after = None, reply_success = True, reply_handle = Some 2\<rparr>,
        fallback_adapter = \<lparr>fires_after = None, reply_success = True, reply_handle = Some 2\<rparr>,
        device_request = \<lparr>fires_after = None, reply_success = True, reply_handle = Some 3\<rparr>,
        device_queue = Some 4\<rparr> g_webgpu_ctx_initial) = - 1
   \<and> fst (webgpu_init
       \<lparr>create_instance = Some 1,
        metal_adapter = \<lparr>fires_after = Some 5, reply_success = False, reply_handle = None\<rparr>,
        fallback_adapter = \<lparr>fires_after = None, reply_success = True, reply_handle = Some 2\<rparr>,
        device_request = \<lparr>fires_after = None, reply_success = True, reply_handle = Some 3\<rparr>,
        device_queue = Some 4\<rparr> g_webgpu_ctx_initial) = - 1
   \<and> fst (webgpu_init
       \<lparr>create_instance = Some 1,
        metal_adapter = \<lparr>fires_after = Some 5, reply_success = True, reply_handle = Some 2\<rparr>,
        fallback_adapter = \<lparr>fires_after = None, reply_success = True, reply_handle = Some 2\<rparr>,
        device_request = \<lparr>fires_after = None, reply_success = True, reply_handle = Some 3\<rparr>,
        device_queue = Some 4\<rparr> g_webgpu_ctx_initial) = - 1"
proof -
  let ?never = "\<lparr>fires_after = None, reply_success = True, reply_handle = Some 2\<rparr>"
  let ?never3 = "\<lparr>fires_after = None, reply_success = True, reply_handle = Some 3\<rparr>"
  let ?env1 = "\<lparr>create_instance = Some 1, metal_adapter = ?never, fallback_adapter = ?never,
                device_request = ?never3, device_queue = Some 4\<rparr>"
  let ?env2 = "\<lparr>create_instance = Some 1,
                metal_adapter = \<lparr>fires_after = Some 5, reply_success = False, reply_handle = None\<rparr>,
                fallback_adapter = ?never, device_request = ?never3, device_queue = Some 4\<rparr>"
  let ?env3 = "\<lparr>create_instance = Some 1,
                metal_adapter = \<lparr>fires_after = Some 5, reply_success = True, reply_handle = Some 2\<rparr>,
                fallback_adapter = ?never, device_request = ?never3, device_queue = Some 4\<rparr>"
  have ad3: "webgpu_init_adapter ?env3 = Inr (Some 2, [])"
    by (simp add: webgpu_init_adapter_def poll_events_eq callback_log_def callback_handle_def
          callback_done_def Let_def)
  have h2: "callback_handle (metal_adapter ?env2) (poll_events (fires_after (metal_adapter ?env2)) 1000 0) = None"
    by (simp add: callback_handle_def)
  from poll_budget_exceeded
         [of "g_webgpu_ctx_initial\<lparr>ctx_initialized := 1\<rparr>"
             "\<lparr>map_fires_after = None, mapped_range = Some [1, 2, 3::nat]\<rparr>" 7 "[0, 0, 0]" 3
             ?env1 "Some 2" "[]"]
       poll_budget_exceeded
         [of g_webgpu_ctx_initial
             "\<lparr>map_fires_after = None, mapped_range = Some [1, 2, 3::nat]\<rparr>" 7 "[0, 0, 0]" 3
             ?env1 "Some 2" "[]"]
       poll_budget_exceeded
         [of g_webgpu_ctx_initial
             "\<lparr>map_fires_after = None, mapped_range = Some [1, 2, 3::nat]\<rparr>" 7 "[0, 0, 0]" 3
             ?env2 "Some 2" "[]"]
       poll_budget_exceeded
         [of g_webgpu_ctx_initial
             "\<lparr>map_fires_after = None, mapped_range = Some [1, 2, 3::nat]\<rparr>" 7 "[0, 0, 0]" 3
             ?env3 "Some 2" "[]"]
       ad3 h2
  show ?thesis
    by (simp add: poll_timed_out_iff webgpu_available_def g_webgpu_ctx_initial_def)
qed

text \<open>
  Claim C4 as stated fails for the session bring-up: when the adapter request never
  completes, \<^verbatim>\<open>webgpu_init\<close> does not proceed but returns the failure status -1, with the
  session left uninitialized.
\<close>

theorem webgpu_init_timeout_counterexample:
  "webgpu_init
     \<lparr>create_instance = Some 1,
      metal_adapter = \<lparr>fires_after = None, reply_success = True, reply_handle = Some 2\<rparr>,
      fallback_adapter = \<lparr>fires_after = Some 0, reply_success = True, reply_handle = Some 2\<rparr>,
      device_request = \<lparr>fires_after = Some 0, reply_success = True, reply_handle = Some 3\<rparr>,
      device_queue = Some 4\<rparr>
     g_webgpu_ctx_initial
   = (- 1, g_webgpu_ctx_initial, [''Timeout waiting for adapter!''])"
  by (simp add: webgpu_init_def webgpu_init_adapter_def poll_events_eq callback_log_def
        callback_done_def g_webgpu_ctx_initial_def Let_def)


section \<open>Loops over the heap\<close>

lemma for_loop_done [simp]: "n \<le> i \<Longrightarrow> for_loop i n body s = Some s"
  by (subst for_loop.simps) simp

lemma for_loop_step:
  "i < n \<Longrightarrow> body i s = Some s' \<Longrightarrow> for_loop i n body s = for_loop (Suc i) n body s'"
  by (subst for_loop.simps) simp

lemma for_loop_fault:
  "i < n \<Longrightarrow> body i s = None \<Longrightarrow> for_loop i n body s = None"
  by (subst for_loop.simps) simp

lemma for_loop_total:
  assumes "I i s" and "i \<le> n"
    and "\<And>k t. i \<le> k \<Longrightarrow> k < n \<Longrightarrow> I k t \<Longrightarrow> \<exists>t'. body k t = Some t' \<and> I (Suc k) t'"
  shows "\<exists>s'. for_loop i n body s = Some s' \<and> I n s'"
  using assms
proof (induction "n - i" arbitrary: i s)
  case 0
  then show ?case by simp
next
  case (Suc d)
  then have lt: "i < n" by simp
  from Suc.prems(3)[OF le_refl lt Suc.prems(1)]
  obtain t' where t': "body i s = Some t'" "I (Suc i) t'" by blast
  have "\<exists>s'. for_loop (Suc i) n body t' = Some s' \<and> I n s'"
  proof (rule Suc.hyps(1))
    show "d = n - Suc i" using Suc.hyps(2) by simp
    show "I (Suc i) t'" by fact
    show "Suc i \<le> n" using lt by simp
    show "\<And>k t. Suc i \<le> k \<Longrightarrow> k < n \<Longrightarrow> I k t \<Longrightarrow> \<exists>t'. body k t = Some t' \<and> I (Suc k) t'"
      using Suc.prems(3) by simp
  qed
  then show ?case using for_loop_step[where i=i and n=n and body=body and s=s and s'=t'] lt t'(1) by simp
qed

lemma for_loop_partial:
  assumes "for_loop i n body s = Some s'" and "P s"
    and "\<And>k t t'. i \<le> k \<Longrightarrow> k < n \<Longrightarrow> P t \<Longrightarrow> body k t = Some t' \<Longrightarrow> P t'"
  shows "P s'"
  using assms
proof (induction "n - i" arbitrary: i s)
  case 0
  then show ?case by simp
next
  case (Suc d)
  then have lt: "i < n" by simp
  show ?case
  proof (cases "body i s")
    case None
    with Suc.prems(1) lt show ?thesis by (simp add: for_loop_fault)
  next
    case (Some t)
    have Pt: "P t" using Suc.prems(3)[OF le_refl lt Suc.prems(2) Some] .
    have run: "for_loop (Suc i) n body t = Some s'"
      using Suc.prems(1) for_loop_step[where i=i and n=n and body=body and s=s and s'=t] lt Some by simp
    show ?thesis
    proof (rule Suc.hyps(1)[OF _ run Pt])
      show "d = n - Suc i" using Suc.hyps(2) by simp
      fix k t t' assume "Suc i \<le> k" "k < n" "P t" "body k t = Some t'"
      then show "P t'" using Suc.prems(3)[of k t t'] by simp
    qed
  qed
qed

section \<open>Accumulating into a gradient buffer\<close>

lemma add_to_grad_eq:
  "h z = Some Z \<Longrightarrow> grad Z = Some g \<Longrightarrow> i < length g \<Longrightarrow>
   add_to_grad h z i x = Some (h(z \<mapsto> Z\<lparr>grad := Some (g[i := g ! i + x])\<rparr>))"
  by (simp add: add_to_grad_def load_def store_def)

lemma accumulate_at:
  assumes i: "i < length g"
    and body: "\<And>j g'. j < n \<Longrightarrow> length g' = length g \<Longrightarrow>
                 body j (h(z \<mapsto> Z\<lparr>grad := Some g'\<rparr>))
                   = Some (h(z \<mapsto> Z\<lparr>grad := Some (g'[i := g' ! i + c j])\<rparr>))"
  shows "for_loop 0 n body (h(z \<mapsto> Z\<lparr>grad := Some g\<rparr>))
           = Some (h(z \<mapsto> Z\<lparr>grad := Some (g[i := g ! i + (\<Sum>j<n. c j)])\<rparr>))"
proof -
  let ?S = "\<lambda>k t. t = h(z \<mapsto> Z\<lparr>grad := Some (g[i := g ! i + (\<Sum>j<k. c j)])\<rparr>)"
  have "\<exists>s'. for_loop 0 n body (h(z \<mapsto> Z\<lparr>grad := Some g\<rparr>)) = Some s' \<and> ?S n s'"
  proof (rule for_loop_total[where I = ?S])
    show "?S 0 (h(z \<mapsto> Z\<lparr>grad := Some g\<rparr>))" by simp
    show "0 \<le> n" by simp
    fix k t assume k: "k < n" and t: "?S k t"
    have "body k t = Some (h(z \<mapsto> Z\<lparr>grad := Some ((g[i := g ! i + (\<Sum>j<k. c j)])
                              [i := (g[i := g ! i + (\<Sum>j<k. c j)]) ! i + c k])\<rparr>))"
      unfolding t by (rule body[OF k]) simp
    then show "\<exists>t'. body k t = Some t' \<and> ?S (Suc k) t'"
      using i by (simp add: add.assoc)
  qed
  then show ?thesis by simp
qed

lemma accumulate_all:
  assumes len: "length g = n"
    and body: "\<And>k g'. k < n \<Longrightarrow> length g' = n \<Longrightarrow>
                 body k (h(z \<mapsto> Z\<lparr>grad := Some g'\<rparr>))
                   = Some (h(z \<mapsto> Z\<lparr>grad := Some (g'[k := g' ! k + c k])\<rparr>))"
  shows "for_loop 0 n body (h(z \<mapsto> Z\<lparr>grad := Some g\<rparr>))
           = Some (h(z \<mapsto> Z\<lparr>grad := Some (map (\<lambda>i. g ! i + c i) [0..<n])\<rparr>))"
proof -
  let ?G = "\<lambda>k. map (\<lambda>i. if i < k then g ! i + c i else g ! i) [0..<n]"
  let ?S = "\<lambda>k t. t = h(z \<mapsto> Z\<lparr>grad := Some (?G k)\<rparr>)"
  have G0: "?G 0 = g" using len map_nth[of g] by simp
  have step: "(?G k)[k := ?G k ! k + c k] = ?G (Suc k)" if "k < n" for k
    using that by (intro nth_equalityI) (auto simp: nth_list_update less_Suc_eq)
  have "\<exists>s'. for_loop 0 n body (h(z \<mapsto> Z\<lparr>grad := Some g\<rparr>)) = Some s' \<and> ?S n s'"
  proof (rule for_loop_total[where I = ?S])
    show "?S 0 (h(z \<mapsto> Z\<lparr>grad := Some g\<rparr>))" using G0 by simp
    show "0 \<le> n" by simp
    fix k t assume k: "k < n" and t: "?S k t"
    have "body k t = Some (h(z \<mapsto> Z\<lparr>grad := Some ((?G k)[k := ?G k ! k + c k])\<rparr>))"
      unfolding t by (rule body[OF k]) simp
    then show "\<exists>t'. body k t = Some t' \<and> ?S (Suc k) t'"
      using step[OF k] by simp
  qed
  moreover have "?G n = map (\<lambda>i. g ! i + c i) [0..<n]"
    by (rule map_cong) auto
  ultimately show ?thesis by simp
qed

lemma ensure_grad_eq: "ensure_grad Z = Z\<lparr>grad := Some (grad_before Z)\<rparr>"
  by (cases "grad Z") (simp_all add: ensure_grad_def grad_before_def)

lemma load_grad_other:
  "a \<noteq> z \<Longrightarrow> h a = Some A \<Longrightarrow> grad A = Some ag \<Longrightarrow> i < length ag \<Longrightarrow>
   load_grad (h(z \<mapsto> Z')) a i = Some (ag ! i)"
  by (simp add: load_grad_def load_def)

lemma load_data_other:
  "a \<noteq> z \<Longrightarrow> h a = Some A \<Longrightarrow> i < length (data A) \<Longrightarrow>
   load_data (h(z \<mapsto> Z')) a i = Some (data A ! i)"
  by (simp add: load_data_def load_def)

lemma load_data_same:
  "i < length (data Z') \<Longrightarrow> load_data (h(z \<mapsto> Z')) z i = Some (data Z' ! i)"
  by (simp add: load_data_def load_def)

lemma add_to_grad_upd:
  "i < length g \<Longrightarrow>
   add_to_grad (h(z \<mapsto> Z\<lparr>grad := Some g\<rparr>)) z i x = Some (h(z \<mapsto> Z\<lparr>grad := Some (g[i := g ! i + x])\<rparr>))"
  by (simp add: add_to_grad_def load_def store_def)

lemma backward_relu_result:
  assumes "h a = Some A" "load (inputs A) 0 = Some z" "h z = Some Z" "a \<noteq> z"
    and "requires_grad Z \<noteq> 0" "grad A = Some ag" "length ag = tsize Z"
    and "length (data Z) = tsize Z" "length (grad_before Z) = tsize Z"
  shows "backward_relu h a =
           Some (h(z \<mapsto> Z\<lparr>grad := Some (map (\<lambda>i. grad_before Z ! i
                     + ag ! i * (if data Z ! i > 0 then 1 else 0)) [0..<tsize Z])\<rparr>))"
proof -
  have "for_loop 0 (tsize Z) (relu_body a z) (h(z \<mapsto> Z\<lparr>grad := Some (grad_before Z)\<rparr>)) =
          Some (h(z \<mapsto> Z\<lparr>grad := Some (map (\<lambda>i. grad_before Z ! i
                     + ag ! i * (if data Z ! i > 0 then 1 else 0)) [0..<tsize Z])\<rparr>))"
  proof (rule accumulate_all)
    show "length (grad_before Z) = tsize Z" by fact
    fix k and g' :: "cfloat list" assume k: "k < tsize Z" and g': "length g' = tsize Z"
    show "relu_body a z k (h(z \<mapsto> Z\<lparr>grad := Some g'\<rparr>)) =
            Some (h(z \<mapsto> Z\<lparr>grad := Some (g'[k := g' ! k
                     + ag ! k * (if data Z ! k > 0 then 1 else 0)])\<rparr>))"
      using assms k g'
      by (simp add: relu_body_def load_grad_other load_data_same add_to_grad_upd)
  qed
  then show ?thesis
    using assms by (simp add: backward_relu_def ensure_grad_eq)
qed

lemma backward_sigmoid_result:
  assumes "h a = Some A" "load (inputs A) 0 = Some z" "h z = Some Z" "a \<noteq> z"
    and "requires_grad Z \<noteq> 0" "grad A = Some ag" "length ag = tsize Z"
    and "length (data A) = tsize Z" "length (grad_before Z) = tsize Z"
  shows "backward_sigmoid h a =
           Some (h(z \<mapsto> Z\<lparr>grad := Some (map (\<lambda>i. grad_before Z ! i
                     + ag ! i * data A ! i * (1 - data A ! i)) [0..<tsize Z])\<rparr>))"
proof -
  have "for_loop 0 (tsize Z) (sigmoid_body a z) (h(z \<mapsto> Z\<lparr>grad := Some (grad_before Z)\<rparr>)) =
          Some (h(z \<mapsto> Z\<lparr>grad := Some (map (\<lambda>i. grad_before Z ! i
                     + ag ! i * data A ! i * (1 - data A ! i)) [0..<tsize Z])\<rparr>))"
  proof (rule accumulate_all)
    show "length (grad_before Z) = tsize Z" by fact
    fix k and g' :: "real list" assume k: "k < tsize Z" and g': "length g' = tsize Z"
    show "sigmoid_body a z k (h(z \<mapsto> Z\<lparr>grad := Some g'\<rparr>)) =
            Some (h(z \<mapsto> Z\<lparr>grad := Some (g'[k := g' ! k
                     + ag ! k * data A ! k * (1 - data A ! k)])\<rparr>))"
      using assms k g'
      by (simp add: sigmoid_body_def load_grad_other load_data_other add_to_grad_upd)
  qed
  then show ?thesis
    using assms by (simp add: backward_sigmoid_def ensure_grad_eq)
qed

lemma backward_tanh_result:
  assumes "h a = Some A" "load (inputs A) 0 = Some z" "h z = Some Z" "a \<noteq> z"
    and "requires_grad Z \<noteq> 0" "grad A = Some ag" "length ag = tsize Z"
    and "length (data A) = tsize Z" "length (grad_before Z) = tsize Z"
  shows "backward_tanh h a =
           Some (h(z \<mapsto> Z\<lparr>grad := Some (map (\<lambda>i. grad_before Z ! i
                     + ag ! i * (1 - data A ! i * data A ! i)) [0..<tsize Z])\<rparr>))"
proof -
  have "for_loop 0 (tsize Z) (tanh_body a z) (h(z \<mapsto> Z\<lparr>grad := Some (grad_before Z)\<rparr>)) =
          Some (h(z \<mapsto> Z\<lparr>grad := Some (map (\<lambda>i. grad_before Z ! i
                     + ag ! i * (1 - data A ! i * data A ! i)) [0..<tsize Z])\<rparr>))"
  proof (rule accumulate_all)
    show "length (grad_before Z) = tsize Z" by fact
    fix k and g' :: "real list" assume k: "k < tsize Z" and g': "length g' = tsize Z"
    show "tanh_body a z k (h(z \<mapsto> Z\<lparr>grad := Some g'\<rparr>)) =
            Some (h(z \<mapsto> Z\<lparr>grad := Some (g'[k := g' ! k
                     + ag ! k * (1 - data A ! k * data A ! k)])\<rparr>))"
      using assms k g'
      by (simp add: tanh_body_def load_grad_other load_data_other add_to_grad_upd)
  qed
  then show ?thesis
    using assms by (simp add: backward_tanh_def ensure_grad_eq)
qed

lemma backward_softmax_result:
  assumes "h a = Some A" "load (inputs A) 0 = Some z" "h z = Some Z" "a \<noteq> z"
    and "requires_grad Z \<noteq> 0" "grad A = Some ag" "length ag = tsize Z"
    and "length (data A) = tsize Z" "length (grad_before Z) = tsize Z"
  shows "backward_softmax h a =
           Some (h(z \<mapsto> Z\<lparr>grad := Some (map (\<lambda>i. grad_before Z ! i
                     + (\<Sum>j<tsize Z. ag ! j * data A ! j * ((if i = j then 1 else 0) - data A ! i)))
                   [0..<tsize Z])\<rparr>))"
proof -
  let ?n = "tsize Z"
  let ?c = "\<lambda>i j. ag ! j * data A ! j * ((if i = j then 1 else 0) - data A ! i)"
  have "for_loop 0 ?n (\<lambda>i. for_loop 0 ?n (softmax_body a z i))
          (h(z \<mapsto> Z\<lparr>grad := Some (grad_before Z)\<rparr>)) =
          Some (h(z \<mapsto> Z\<lparr>grad := Some (map (\<lambda>i. grad_before Z ! i + (\<Sum>j<?n. ?c i j)) [0..<?n])\<rparr>))"
  proof (rule accumulate_all)
    show "length (grad_before Z) = ?n" by fact
    fix k and g' :: "real list" assume k: "k < ?n" and g': "length g' = ?n"
    show "for_loop 0 ?n (softmax_body a z k) (h(z \<mapsto> Z\<lparr>grad := Some g'\<rparr>)) =
            Some (h(z \<mapsto> Z\<lparr>grad := Some (g'[k := g' ! k + (\<Sum>j<?n. ?c k j)])\<rparr>))"
    proof (rule accumulate_at)
      show "k < length g'" using k g' by simp
      fix j and g'' :: "real list" assume j: "j < ?n" and g'': "length g'' = length g'"
      show "softmax_body a z k j (h(z \<mapsto> Z\<lparr>grad := Some g''\<rparr>)) =
              Some (h(z \<mapsto> Z\<lparr>grad := Some (g''[k := g'' ! k + ?c k j])\<rparr>))"
        using assms k g' j g''
        by (simp add: softmax_body_def load_grad_other load_data_other add_to_grad_upd)
    qed
  qed
  then show ?thesis
    using assms by (simp add: backward_softmax_def ensure_grad_eq)
qed

section \<open>Gradient rules of the activations\<close>

subsection \<open>Products and sums of C floats\<close>

lemma cfloat_times_one: "x * (1::cfloat) = x"
  by (cases x) (simp_all add: times_cfloat_def one_cfloat_def)

lemma cfloat_times_zero_finite:
  "is_finite x \<Longrightarrow> x * (0::cfloat) = (if sign_bit x then NegZero else Finite 0)"
  by (cases x) (simp_all add: times_cfloat_def zero_cfloat_def)

lemma cfloat_times_zero_not_finite: "\<not> is_finite x \<Longrightarrow> x * (0::cfloat) = NaN"
  by (cases x) (simp_all add: times_cfloat_def zero_cfloat_def)

lemma cfloat_plus_zero: "is_zero w \<Longrightarrow> same_value (x + w) x"
  by (cases x; cases w) (simp_all add: plus_cfloat_def same_value_def)

lemma cfloat_plus_NaN: "x + NaN = NaN"
  by (simp add: plus_cfloat_def)

lemma cfloat_positive_iff:
  "(0::cfloat) < x \<longleftrightarrow> x = PlusInf \<or> (\<exists>r. x = Finite r \<and> 0 < r)"
  by (cases x) (simp_all add: less_cfloat_def zero_cfloat_def)

text \<open>
  Claim C6 as stated fails: where the forward input is not positive, the rule adds the
  product of the upstream gradient with \<^verbatim>\<open>0.0f\<close>, and for an infinite upstream gradient that
  product is NaN, not zero. Here \<^verbatim>\<open>Z->data[0]\<close> is -1, \<^verbatim>\<open>A->grad[0]\<close> is infinite, and
  \<^verbatim>\<open>Z->grad[0]\<close> goes from 5 to NaN.
\<close>

theorem backward_relu_infinite_upstream_counterexample:
  "backward_relu
     [1 \<mapsto> \<lparr>data = [Finite 0], grad = Some [PlusInf], shape = [1], ndim = 1, tsize = 1,
              requires_grad = 1, inputs = [2]\<rparr>,
      2 \<mapsto> \<lparr>data = [Finite (- 1)], grad = Some [Finite 5], shape = [1], ndim = 1, tsize = 1,
              requires_grad = 1, inputs = []\<rparr>] 1
   = Some [1 \<mapsto> \<lparr>data = [Finite 0], grad = Some [PlusInf], shape = [1], ndim = 1, tsize = 1,
                   requires_grad = 1, inputs = [2]\<rparr>,
           2 \<mapsto> \<lparr>data = [Finite (- 1)], grad = Some [NaN], shape = [1], ndim = 1, tsize = 1,
                   requires_grad = 1, inputs = []\<rparr>]"
  by (simp add: backward_relu_def relu_body_def ensure_grad_def load_def store_def
        load_grad_def load_data_def add_to_grad_def for_loop.simps
        less_cfloat_def zero_cfloat_def times_cfloat_def plus_cfloat_def)

text \<open>
  Claim C6, as amended. For a relu output \<open>A\<close> whose input \<open>Z\<close> requires gradients (both
  well formed: the buffers hold \<^verbatim>\<open>Z->size\<close> elements, \<open>A\<close> has its gradient, \<open>A\<close> is not its
  own input), \<^verbatim>\<open>backward_relu\<close> returns and changes nothing but the gradient buffer of \<open>Z\<close>.
  Where \<^verbatim>\<open>Z->data[i] > 0\<close> it adds \<^verbatim>\<open>A->grad[i]\<close> to \<^verbatim>\<open>Z->grad[i]\<close>. Elsewhere it adds the
  product of \<^verbatim>\<open>A->grad[i]\<close> with \<^verbatim>\<open>0.0f\<close>: for a finite \<^verbatim>\<open>A->grad[i]\<close> that is a zero, and the
  value of \<^verbatim>\<open>Z->grad[i]\<close> stays what it was; for an infinite or NaN \<^verbatim>\<open>A->grad[i]\<close> it is NaN, and
  \<^verbatim>\<open>Z->grad[i]\<close> becomes NaN. So for finite upstream gradients, of whatever magnitude, the
  gradient of \<open>Z\<close> changes only where the forward input was strictly positive.
\<close>

theorem backward_relu_masks_by_product:
  assumes "h a = Some A" and "load (inputs A) 0 = Some z" and "h z = Some Z" and "a \<noteq> z"
    and "requires_grad Z \<noteq> 0" and "grad A = Some ag" and "length ag = tsize Z"
    and "length (data Z) = tsize Z" and "length (grad_before Z) = tsize Z"
  shows "\<exists>g'. backward_relu h a = Some (h(z \<mapsto> Z\<lparr>grad := Some g'\<rparr>))
           \<and> length g' = tsize Z
           \<and> (\<forall>i<tsize Z. 0 < data Z ! i \<longrightarrow> g' ! i = grad_before Z ! i + ag ! i)
           \<and> (\<forall>i<tsize Z. \<not> 0 < data Z ! i \<longrightarrow> g' ! i = grad_before Z ! i + ag ! i * 0)
           \<and> (\<forall>i<tsize Z. \<not> 0 < data Z ! i \<and> is_finite (ag ! i) \<longrightarrow>
                  same_value (g' ! i) (grad_before Z ! i))
           \<and> (\<forall>i<tsize Z. \<not> 0 < data Z ! i \<and> \<not> is_finite (ag ! i) \<longrightarrow> g' ! i = NaN)
           \<and> (\<forall>i<tsize Z. is_finite (ag ! i) \<and> \<not> same_value (g' ! i) (grad_before Z ! i) \<longrightarrow>
                  0 < data Z ! i)"
proof -
  let ?g = "map (\<lambda>i. grad_before Z ! i + ag ! i * (if data Z ! i > 0 then 1 else 0))
              [0..<tsize Z]"
  have fin: "same_value (grad_before Z ! i + ag ! i * 0) (grad_before Z ! i)"
    if "is_finite (ag ! i)" for i
    using that by (intro cfloat_plus_zero) (simp add: cfloat_times_zero_finite)
  have nan: "grad_before Z ! i + ag ! i * 0 = NaN" if "\<not> is_finite (ag ! i)" for i
    using that by (simp add: cfloat_times_zero_not_finite cfloat_plus_NaN)
  have "backward_relu h a = Some (h(z \<mapsto> Z\<lparr>grad := Some ?g\<rparr>))"
    by (rule backward_relu_result[OF assms])
  moreover have "length ?g = tsize Z" by simp
  moreover have "\<forall>i<tsize Z. 0 < data Z ! i \<longrightarrow> ?g ! i = grad_before Z ! i + ag ! i"
    by (simp add: cfloat_times_one)
  moreover have "\<forall>i<tsize Z. \<not> 0 < data Z ! i \<longrightarrow> ?g ! i = grad_before Z ! i + ag ! i * 0"
    by simp
  moreover have "\<forall>i<tsize Z. \<not> 0 < data Z ! i \<and> is_finite (ag ! i) \<longrightarrow>
                  same_value (?g ! i) (grad_before Z ! i)"
    using fin by simp
  moreover have "\<forall>i<tsize Z. \<not> 0 < data Z ! i \<and> \<not> is_finite (ag ! i) \<longrightarrow> ?g ! i = NaN"
    using nan by simp
  moreover have "\<forall>i<tsize Z. is_finite (ag ! i) \<and> \<not> same_value (?g ! i) (grad_before Z ! i) \<longrightarrow>
                  0 < data Z ! i"
    using fin by auto
  ultimately show ?thesis by blast
qed

theorem backward_relu_masks_by_product_witness:
  "\<exists>g'. backward_relu
          [1 \<mapsto> \<lparr>data = [Finite 0, Finite 3, Finite 0], grad = Some [Finite 5, Finite 7, MinusInf],
                   shape = [3], ndim = 1, tsize = 3, requires_grad = 1, inputs = [2]\<rparr>,
           2 \<mapsto> \<lparr>data = [Finite (- 1), Finite 3, NegZero], grad = None, shape = [3], ndim = 1,
                   tsize = 3, requires_grad = 1, inputs = []\<rparr>] 1
        = Some ([1 \<mapsto> \<lparr>data = [Finite 0, Finite 3, Finite 0],
                         grad = Some [Finite 5, Finite 7, MinusInf],
                         shape = [3], ndim = 1, tsize = 3, requires_grad = 1, inputs = [2]\<rparr>,
                 2 \<mapsto> \<lparr>data = [Finite (- 1), Finite 3, NegZero], grad = Some g', shape = [3],
                         ndim = 1, tsize = 3, requires_grad = 1, inputs = []\<rparr>])
      \<and> same_value (g' ! 0) (Finite 0) \<and> g' ! 1 = Finite 7 \<and> g' ! 2 = NaN"
proof -
  let ?A = "\<lparr>data = [Finite 0, Finite 3, Finite 0], grad = Some [Finite 5, Finite 7, MinusInf],
             shape = [3], ndim = 1, tsize = 3, requires_grad = 1, inputs = [2]\<rparr>"
  let ?Z = "\<lparr>data = [Finite (- 1), Finite 3, NegZero], grad = None, shape = [3], ndim = 1,
             tsize = 3, requires_grad = 1, inputs = []\<rparr>"
  let ?ag = "[Finite 5, Finite 7, MinusInf]"
  have "\<exists>g'. backward_relu [1 \<mapsto> ?A, 2 \<mapsto> ?Z] 1
               = Some ([1 \<mapsto> ?A, 2 \<mapsto> ?Z](2 \<mapsto> ?Z\<lparr>grad := Some g'\<rparr>))
           \<and> length g' = tsize ?Z
           \<and> (\<forall>i<tsize ?Z. 0 < data ?Z ! i \<longrightarrow> g' ! i = grad_before ?Z ! i + ?ag ! i)
           \<and> (\<forall>i<tsize ?Z. \<not> 0 < data ?Z ! i \<longrightarrow> g' ! i = grad_before ?Z ! i + ?ag ! i * 0)
           \<and> (\<forall>i<tsize ?Z. \<not> 0 < data ?Z ! i \<and> is_finite (?ag ! i) \<longrightarrow>
                  same_value (g' ! i) (grad_before ?Z ! i))
           \<and> (\<forall>i<tsize ?Z. \<not> 0 < data ?Z ! i \<and> \<not> is_finite (?ag ! i) \<longrightarrow> g' ! i = NaN)
           \<and> (\<forall>i<tsize ?Z. is_finite (?ag ! i) \<and> \<not> same_value (g' ! i) (grad_before ?Z ! i) \<longrightarrow>
                  0 < data ?Z ! i)"
    by (rule backward_relu_masks_by_product[where A = ?A])
       (simp_all add: load_def grad_before_def)
  then obtain g' where
    run: "backward_relu [1 \<mapsto> ?A, 2 \<mapsto> ?Z] 1
            = Some ([1 \<mapsto> ?A, 2 \<mapsto> ?Z](2 \<mapsto> ?Z\<lparr>grad := Some g'\<rparr>))"
    and pos: "\<forall>i<tsize ?Z. 0 < data ?Z ! i \<longrightarrow> g' ! i = grad_before ?Z ! i + ?ag ! i"
    and fin: "\<forall>i<tsize ?Z. \<not> 0 < data ?Z ! i \<and> is_finite (?ag ! i) \<longrightarrow>
                  same_value (g' ! i) (grad_before ?Z ! i)"
    and nan: "\<forall>i<tsize ?Z. \<not> 0 < data ?Z ! i \<and> \<not> is_finite (?ag ! i) \<longrightarrow> g' ! i = NaN"
    by blast
  have g0: "same_value (g' ! 0) (Finite 0)"
    using fin[rule_format, of 0]
    by (simp add: grad_before_def less_cfloat_def zero_cfloat_def)
  have g1: "g' ! 1 = Finite 7"
    using pos[rule_format, of 1]
    by (simp add: grad_before_def less_cfloat_def zero_cfloat_def plus_cfloat_def)
  have g2: "g' ! 2 = NaN"
    using nan[rule_format, of 2]
    by (simp add: less_cfloat_def zero_cfloat_def)
  have "backward_relu [1 \<mapsto> ?A, 2 \<mapsto> ?Z] 1 = Some ([1 \<mapsto> ?A, 2 \<mapsto> ?Z\<lparr>grad := Some g'\<rparr>])"
    using run by simp
  with g0 g1 g2 show ?thesis by auto
qed

text \<open>
  Claim C7. For a sigmoid (resp. tanh) output \<open>A\<close> whose input \<open>Z\<close> requires gradients,
  the rule adds \<^verbatim>\<open>A->grad[i] * s * (1 - s)\<close> with \<^verbatim>\<open>s = A->data[i]\<close> (resp.
  \<^verbatim>\<open>A->grad[i] * (1 - t * t)\<close> with \<^verbatim>\<open>t = A->data[i]\<close>) to \<^verbatim>\<open>Z->grad[i]\<close>, and it never
  reads \<^verbatim>\<open>Z->data\<close>: with any other contents \<open>d\<close> of the input's data buffer (of any
  length) it returns the same gradient.
\<close>

theorem backward_sigmoid_tanh_use_output:
  assumes "h a = Some A" and "load (inputs A) 0 = Some z" and "h z = Some Z" and "a \<noteq> z"
    and "requires_grad Z \<noteq> 0" and "grad A = Some ag" and "length ag = tsize Z"
    and "length (data A) = tsize Z" and "length (grad_before Z) = tsize Z"
  shows "(\<exists>g'. backward_sigmoid h a = Some (h(z \<mapsto> Z\<lparr>grad := Some g'\<rparr>))
            \<and> length g' = tsize Z
            \<and> (\<forall>i<tsize Z. g' ! i = grad_before Z ! i + ag ! i * data A ! i * (1 - data A ! i))
            \<and> (\<forall>d. backward_sigmoid (h(z \<mapsto> Z\<lparr>data := d\<rparr>)) a
                      = Some (h(z \<mapsto> Z\<lparr>data := d, grad := Some g'\<rparr>))))
       \<and> (\<exists>g'. backward_tanh h a = Some (h(z \<mapsto> Z\<lparr>grad := Some g'\<rparr>))
            \<and> length g' = tsize Z
            \<and> (\<forall>i<tsize Z. g' ! i = grad_before Z ! i + ag ! i * (1 - data A ! i * data A ! i))
            \<and> (\<forall>d. backward_tanh (h(z \<mapsto> Z\<lparr>data := d\<rparr>)) a
                      = Some (h(z \<mapsto> Z\<lparr>data := d, grad := Some g'\<rparr>))))"
proof -
  have other: "(h(z \<mapsto> Z\<lparr>data := d\<rparr>)) a = Some A" "(h(z \<mapsto> Z\<lparr>data := d\<rparr>)) z = Some (Z\<lparr>data := d\<rparr>)"
    "requires_grad (Z\<lparr>data := d\<rparr>) \<noteq> 0" "length ag = tsize (Z\<lparr>data := d\<rparr>)"
    "length (data A) = tsize (Z\<lparr>data := d\<rparr>)"
    "length (grad_before (Z\<lparr>data := d\<rparr>)) = tsize (Z\<lparr>data := d\<rparr>)" for d :: "real list"
    using assms by (simp_all add: grad_before_def split: option.splits)
  have gb: "grad_before (Z\<lparr>data := d\<rparr>) = grad_before Z" for d :: "real list"
    by (simp add: grad_before_def split: option.splits)
  have s: "backward_sigmoid (h(z \<mapsto> Z\<lparr>data := d\<rparr>)) a
             = Some (h(z \<mapsto> Z\<lparr>data := d, grad := Some (map (\<lambda>i. grad_before Z ! i
                     + ag ! i * data A ! i * (1 - data A ! i)) [0..<tsize Z])\<rparr>))" for d :: "real list"
    using backward_sigmoid_result[where h = "h(z \<mapsto> Z\<lparr>data := d\<rparr>)" and Z = "Z\<lparr>data := d\<rparr>",
            OF other(1)[of d] assms(2) other(2)[of d] assms(4) other(3)[of d] assms(6)
               other(4)[of d] other(5)[of d] other(6)[of d]]
    by (simp add: gb)
  have t: "backward_tanh (h(z \<mapsto> Z\<lparr>data := d\<rparr>)) a
             = Some (h(z \<mapsto> Z\<lparr>data := d, grad := Some (map (\<lambda>i. grad_before Z ! i
                     + ag ! i * (1 - data A ! i * data A ! i)) [0..<tsize Z])\<rparr>))" for d :: "real list"
    using backward_tanh_result[where h = "h(z \<mapsto> Z\<lparr>data := d\<rparr>)" and Z = "Z\<lparr>data := d\<rparr>",
            OF other(1)[of d] assms(2) other(2)[of d] assms(4) other(3)[of d] assms(6)
               other(4)[of d] other(5)[of d] other(6)[of d]]
    by (simp add: gb)
  show ?thesis
  proof (intro conjI)
    show "\<exists>g'. backward_sigmoid h a = Some (h(z \<mapsto> Z\<lparr>grad := Some g'\<rparr>))
            \<and> length g' = tsize Z
            \<and> (\<forall>i<tsize Z. g' ! i = grad_before Z ! i + ag ! i * data A ! i * (1 - data A ! i))
            \<and> (\<forall>d. backward_sigmoid (h(z \<mapsto> Z\<lparr>data := d\<rparr>)) a
                      = Some (h(z \<mapsto> Z\<lparr>data := d, grad := Some g'\<rparr>)))"
      by (rule exI[of _ "map (\<lambda>i. grad_before Z ! i + ag ! i * data A ! i * (1 - data A ! i))
                           [0..<tsize Z]"])
         (simp add: backward_sigmoid_result[OF assms] s)
    show "\<exists>g'. backward_tanh h a = Some (h(z \<mapsto> Z\<lparr>grad := Some g'\<rparr>))
            \<and> length g' = tsize Z
            \<and> (\<forall>i<tsize Z. g' ! i = grad_before Z ! i + ag ! i * (1 - data A ! i * data A ! i))
            \<and> (\<forall>d. backward_tanh (h(z \<mapsto> Z\<lparr>data := d\<rparr>)) a
                      = Some (h(z \<mapsto> Z\<lparr>data := d, grad := Some g'\<rparr>)))"
      by (rule exI[of _ "map (\<lambda>i. grad_before Z ! i + ag ! i * (1 - data A ! i * data A ! i))
                           [0..<tsize Z]"])
         (simp add: backward_tanh_result[OF assms] t)
  qed
qed

theorem backward_sigmoid_tanh_use_output_witness:
  "(\<exists>g'. backward_sigmoid
          [1 \<mapsto> \<lparr>data = [1 / 2, 0], grad = Some [4, 3], shape = [2], ndim = 1, tsize = 2,
                   requires_grad = 1, inputs = [2]\<rparr>,
           2 \<mapsto> \<lparr>data = [9, 9], grad = Some [1, 1], shape = [2], ndim = 1, tsize = 2,
                   requires_grad = 1, inputs = []\<rparr>] 1
        = Some ([1 \<mapsto> \<lparr>data = [1 / 2, 0], grad = Some [4, 3], shape = [2], ndim = 1, tsize = 2,
                   requires_grad = 1, inputs = [2]\<rparr>,
                 2 \<mapsto> \<lparr>data = [9, 9], grad = Some g', shape = [2], ndim = 1, tsize = 2,
                   requires_grad = 1, inputs = []\<rparr>])
      \<and> g' ! 0 = 2 \<and> g' ! 1 = 1)
   \<and> (\<exists>g'. backward_tanh
          [1 \<mapsto> \<lparr>data = [1 / 2, 0], grad = Some [4, 3], shape = [2], ndim = 1, tsize = 2,
                   requires_grad = 1, inputs = [2]\<rparr>,
           2 \<mapsto> \<lparr>data = [9, 9], grad = Some [1, 1], shape = [2], ndim = 1, tsize = 2,
                   requires_grad = 1, inputs = []\<rparr>] 1
        = Some ([1 \<mapsto> \<lparr>data = [1 / 2, 0], grad = Some [4, 3], shape = [2], ndim = 1, tsize = 2,
                   requires_grad = 1, inputs = [2]\<rparr>,
                 2 \<mapsto> \<lparr>data = [9, 9], grad = Some g', shape = [2], ndim = 1, tsize = 2,
                   requires_grad = 1, inputs = []\<rparr>])
      \<and> g' ! 0 = 4 \<and> g' ! 1 = 4)"
proof -
  let ?A = "\<lparr>data = [1 / 2, 0], grad = Some [4, 3], shape = [2], ndim = 1, tsize = 2,
             requires_grad = 1, inputs = [2]\<rparr> :: Tensor"
  let ?Z = "\<lparr>data = [9, 9], grad = Some [1, 1], shape = [2], ndim = 1, tsize = 2,
             requires_grad = 1, inputs = []\<rparr> :: Tensor"
  let ?h = "[1 \<mapsto> ?A, 2 \<mapsto> ?Z]"
  have "(\<exists>g'. backward_sigmoid ?h 1 = Some (?h(2 \<mapsto> ?Z\<lparr>grad := Some g'\<rparr>))
            \<and> length g' = tsize ?Z
            \<and> (\<forall>i<tsize ?Z. g' ! i = grad_before ?Z ! i + [4, 3] ! i * data ?A ! i * (1 - data ?A ! i))
            \<and> (\<forall>d. backward_sigmoid (?h(2 \<mapsto> ?Z\<lparr>data := d\<rparr>)) 1
                      = Some (?h(2 \<mapsto> ?Z\<lparr>data := d, grad := Some g'\<rparr>))))
       \<and> (\<exists>g'. backward_tanh ?h 1 = Some (?h(2 \<mapsto> ?Z\<lparr>grad := Some g'\<rparr>))
            \<and> length g' = tsize ?Z
            \<and> (\<forall>i<tsize ?Z. g' ! i = grad_before ?Z ! i + [4, 3] ! i * (1 - data ?A ! i * data ?A ! i))
            \<and> (\<forall>d. backward_tanh (?h(2 \<mapsto> ?Z\<lparr>data := d\<rparr>)) 1
                      = Some (?h(2 \<mapsto> ?Z\<lparr>data := d, grad := Some g'\<rparr>))))"
    by (rule backward_sigmoid_tanh_use_output[where A = ?A])
       (simp_all add: load_def grad_before_def)
  then obtain gs gt where
    gs: "backward_sigmoid ?h 1 = Some (?h(2 \<mapsto> ?Z\<lparr>grad := Some gs\<rparr>))"
        "\<forall>i<2. gs ! i = grad_before ?Z ! i + [4, 3] ! i * data ?A ! i * (1 - data ?A ! i)"
    and gt: "backward_tanh ?h 1 = Some (?h(2 \<mapsto> ?Z\<lparr>grad := Some gt\<rparr>))"
        "\<forall>i<2. gt ! i = grad_before ?Z ! i + [4, 3] ! i * (1 - data ?A ! i * data ?A ! i)"
    by auto
  have "backward_sigmoid ?h 1 = Some ([1 \<mapsto> ?A, 2 \<mapsto> ?Z\<lparr>grad := Some gs\<rparr>])
          \<and> gs ! 0 = 2 \<and> gs ! 1 = 1"
    using gs by (simp add: grad_before_def)
  moreover have "backward_tanh ?h 1 = Some ([1 \<mapsto> ?A, 2 \<mapsto> ?Z\<lparr>grad := Some gt\<rparr>])
          \<and> gt ! 0 = 4 \<and> gt ! 1 = 4"
    using gt by (simp add: grad_before_def)
  ultimately show ?thesis by auto
qed

text \<open>
  Claim C5. For a softmax output \<open>A\<close> whose input \<open>Z\<close> requires gradients,
  \<^verbatim>\<open>backward_softmax\<close> adds to \<^verbatim>\<open>Z->grad[i]\<close>, for every flat index \<open>i\<close>, the sum over every
  flat index \<open>j\<close> of the whole tensor of \<^verbatim>\<open>A->grad[j] * A->data[j] * (delta_ij - A->data[i])\<close>,
  whatever the shape: the contraction is not per row. (In the witness, a 2 by 2 tensor, the
  upstream gradient of row 0 reaches element 2 of row 1.)
\<close>

theorem backward_softmax_full_contraction:
  assumes "h a = Some A" and "load (inputs A) 0 = Some z" and "h z = Some Z" and "a \<noteq> z"
    and "requires_grad Z \<noteq> 0" and "grad A = Some ag" and "length ag = tsize Z"
    and "length (data A) = tsize Z" and "length (grad_before Z) = tsize Z"
  shows "\<exists>g'. backward_softmax h a = Some (h(z \<mapsto> Z\<lparr>grad := Some g'\<rparr>))
           \<and> length g' = tsize Z
           \<and> (\<forall>i<tsize Z. g' ! i = grad_before Z ! i
                  + (\<Sum>j<tsize Z. ag ! j * data A ! j * ((if i = j then 1 else 0) - data A ! i)))"
  by (rule exI[of _ "map (\<lambda>i. grad_before Z ! i
         + (\<Sum>j<tsize Z. ag ! j * data A ! j * ((if i = j then 1 else 0) - data A ! i)))
       [0..<tsize Z]"])
     (simp add: backward_softmax_result[OF assms])

theorem backward_softmax_full_contraction_witness:
  "\<exists>g'. backward_softmax
          [1 \<mapsto> \<lparr>data = [1 / 2, 1 / 2, 1 / 2, 1 / 2], grad = Some [1, 0, 0, 0], shape = [2, 2],
                   ndim = 2, tsize = 4, requires_grad = 1, inputs = [2]\<rparr>,
           2 \<mapsto> \<lparr>data = [0, 0, 0, 0], grad = None, shape = [2, 2], ndim = 2, tsize = 4,
                   requires_grad = 1, inputs = []\<rparr>] 1
        = Some ([1 \<mapsto> \<lparr>data = [1 / 2, 1 / 2, 1 / 2, 1 / 2], grad = Some [1, 0, 0, 0], shape = [2, 2],
                   ndim = 2, tsize = 4, requires_grad = 1, inputs = [2]\<rparr>,
                 2 \<mapsto> \<lparr>data = [0, 0, 0, 0], grad = Some g', shape = [2, 2], ndim = 2, tsize = 4,
                   requires_grad = 1, inputs = []\<rparr>])
      \<and> g' ! 0 = 1 / 4 \<and> g' ! 2 = - (1 / 4)"
proof -
  let ?A = "\<lparr>data = [1 / 2, 1 / 2, 1 / 2, 1 / 2], grad = Some [1, 0, 0, 0], shape = [2, 2],
             ndim = 2, tsize = 4, requires_grad = 1, inputs = [2]\<rparr> :: Tensor"
  let ?Z = "\<lparr>data = [0, 0, 0, 0], grad = None, shape = [2, 2], ndim = 2, tsize = 4,
             requires_grad = 1, inputs = []\<rparr> :: Tensor"
  let ?h = "[1 \<mapsto> ?A, 2 \<mapsto> ?Z]"
  have "\<exists>g'. backward_softmax ?h 1 = Some (?h(2 \<mapsto> ?Z\<lparr>grad := Some g'\<rparr>))
           \<and> length g' = tsize ?Z
           \<and> (\<forall>i<tsize ?Z. g' ! i = grad_before ?Z ! i
                  + (\<Sum>j<tsize ?Z. [1, 0, 0, 0] ! j * data ?A ! j * ((if i = j then 1 else 0) - data ?A ! i)))"
    by (rule backward_softmax_full_contraction[where A = ?A])
       (simp_all add: load_def grad_before_def)
  then obtain g' where
    g: "backward_softmax ?h 1 = Some (?h(2 \<mapsto> ?Z\<lparr>grad := Some g'\<rparr>))"
       "\<forall>i<4. g' ! i = grad_before ?Z ! i
                  + (\<Sum>j<4. [1, 0, 0, 0] ! j * data ?A ! j * ((if i = j then 1 else 0) - data ?A ! i))"
    by auto
  have four: "{..<4::nat} = {0, 1, 2, 3}" by auto
  have "g' ! 0 = 1 / 4"
    using g(2)[rule_format, of 0] by (simp add: four grad_before_def)
  moreover have "g' ! 2 = - (1 / 4)"
    using g(2)[rule_format, of 2] by (simp add: four grad_before_def)
  ultimately have "backward_softmax ?h 1 = Some ([1 \<mapsto> ?A, 2 \<mapsto> ?Z\<lparr>grad := Some g'\<rparr>])
          \<and> g' ! 0 = 1 / 4 \<and> g' ! 2 = - (1 / 4)"
    using g(1) by simp
  then show ?thesis by auto
qed

section \<open>Optimizer steps\<close>

lemma load_Some: "load xs i = Some x \<longleftrightarrow> i < length xs \<and> x = xs ! i"
  by (auto simp: load_def)

lemma store_data_frame:
  assumes "store_data h q j x = Some h'"
  shows "map_option grad (h' y) = map_option grad (h y)" and "y \<noteq> q \<Longrightarrow> h' y = h y"
  using assms by (auto simp: store_data_def bind_eq_Some_conv)

lemma for_loop_frame:
  assumes run: "for_loop 0 n body h = Some h'"
    and G: "G h"
    and body: "\<And>k t t'. k < n \<Longrightarrow> G t \<Longrightarrow> body k t = Some t' \<Longrightarrow>
                 G t' \<and> (\<forall>y. y \<notin> T k \<longrightarrow> t' y = t y)"
    and x: "\<And>k. k < n \<Longrightarrow> x \<notin> T k"
  shows "h' x = h x"
proof -
  have "G h' \<and> h' x = h x"
  proof (rule for_loop_partial[OF run, where P = "\<lambda>t. G t \<and> t x = h x"])
    show "G h \<and> h x = h x" using G by simp
    fix k t t' assume "0 \<le> k" "k < n" "G t \<and> t x = h x" "body k t = Some t'"
    then show "G t' \<and> t' x = h x"
      using body[of k t t'] x[of k] by auto
  qed
  then show ?thesis by simp
qed

lemma same_grads_refl: "same_grads h h"
  by (simp add: same_grads_def)

lemma same_grads_null:
  "same_grads h t \<Longrightarrow> t q = Some Q \<Longrightarrow> \<exists>Q'. h q = Some Q' \<and> grad Q' = grad Q"
  unfolding same_grads_def
  by (metis map_option_eq_Some option.simps(9))

lemma sgd_momentum_body_frame:
  assumes "sgd_momentum_body st q i j s = Some s'"
  shows "map_option grad (s' y) = map_option grad (s y)"
    and "y \<noteq> q \<Longrightarrow> (\<forall>vel. sgd_velocity st = Some vel \<and> i < length vel \<longrightarrow> y \<noteq> vel ! i) \<Longrightarrow> s' y = s y"
proof -
  from assms obtain vel vi x1 s1 x2 where
    v: "sgd_velocity st = Some vel" "load vel i = Some vi"
    and s1: "store_data s vi j x1 = Some s1"
    and s2: "store_data s1 q j x2 = Some s'"
    by (auto simp: sgd_momentum_body_def bind_eq_Some_conv)
  show "map_option grad (s' y) = map_option grad (s y)"
    using store_data_frame(1)[OF s1] store_data_frame(1)[OF s2] by simp
  assume "y \<noteq> q" "\<forall>vel. sgd_velocity st = Some vel \<and> i < length vel \<longrightarrow> y \<noteq> vel ! i"
  then have "y \<noteq> q" "y \<noteq> vi" using v by (auto simp: load_Some)
  then show "s' y = s y"
    using store_data_frame(2)[OF s1] store_data_frame(2)[OF s2] by simp
qed

lemma sgd_plain_body_frame:
  assumes "sgd_plain_body st q j s = Some s'"
  shows "map_option grad (s' y) = map_option grad (s y)" and "y \<noteq> q \<Longrightarrow> s' y = s y"
  using assms
  by (auto simp: sgd_plain_body_def bind_eq_Some_conv dest: store_data_frame)

lemma sgd_param_frame:
  assumes G: "same_grads h t" and run: "sgd_param opt k t = Some t'"
  shows "same_grads h t' \<and> (\<forall>y. y \<notin> sgd_touched h opt k \<longrightarrow> t' y = t y)"
proof -
  from run obtain q Q where q: "k < length (opt_parameters opt)" "q = opt_parameters opt ! k"
    and Q: "t q = Some Q"
    and rest: "(if grad Q = None then Some t
       else if sgd_momentum (opt_state opt) > 0
       then for_loop 0 (tsize Q) (sgd_momentum_body (opt_state opt) q k) t
       else for_loop 0 (tsize Q) (sgd_plain_body (opt_state opt) q) t) = Some t'"
    by (auto simp: sgd_param_def bind_eq_Some_conv load_Some)
  show ?thesis
  proof (cases "grad Q = None")
    case True
    with rest G show ?thesis by simp
  next
    case False
    obtain Q' where "h q = Some Q'" "grad Q' = grad Q"
      using same_grads_null[OF G Q] by blast
    with False q have touched: "sgd_touched h opt k = {q}
           \<union> {vi. \<exists>vel. sgd_velocity (opt_state opt) = Some vel \<and> k < length vel \<and> vi = vel ! k}"
      by (simp add: sgd_touched_def)
    let ?P = "\<lambda>s. same_grads h s \<and> (\<forall>y. y \<notin> sgd_touched h opt k \<longrightarrow> s y = t y)"
    show ?thesis
    proof (cases "sgd_momentum (opt_state opt) > 0")
      case True
      with rest False have run': "for_loop 0 (tsize Q) (sgd_momentum_body (opt_state opt) q k) t = Some t'"
        by simp
      show ?thesis
      proof (rule for_loop_partial[OF run', where P = ?P])
        show "?P t" using G by simp
        fix j s s' assume "?P s" and b: "sgd_momentum_body (opt_state opt) q k j s = Some s'"
        then show "?P s'"
          using sgd_momentum_body_frame[OF b] touched
          by (auto simp: same_grads_def)
      qed
    next
      case nm: False
      with rest False have run': "for_loop 0 (tsize Q) (sgd_plain_body (opt_state opt) q) t = Some t'"
        by simp
      show ?thesis
      proof (rule for_loop_partial[OF run', where P = ?P])
        show "?P t" using G by simp
        fix j s s' assume "?P s" and b: "sgd_plain_body (opt_state opt) q j s = Some s'"
        then show "?P s'"
          using sgd_plain_body_frame[OF b] touched
          by (auto simp: same_grads_def)
      qed
    qed
  qed
qed

lemma sgd_step_frame:
  assumes "sgd_step h opt = Some h'"
    and "\<And>k. k < opt_num_parameters opt \<Longrightarrow> x \<notin> sgd_touched h opt k"
  shows "h' x = h x"
proof (rule for_loop_frame[where G = "same_grads h" and T = "sgd_touched h opt"])
  show "for_loop 0 (opt_num_parameters opt) (sgd_param opt) h = Some h'"
    using assms(1) by (simp add: sgd_step_def)
  show "same_grads h h" by (rule same_grads_refl)
  show "\<And>k t t'. k < opt_num_parameters opt \<Longrightarrow> same_grads h t \<Longrightarrow> sgd_param opt k t = Some t' \<Longrightarrow>
           same_grads h t' \<and> (\<forall>y. y \<notin> sgd_touched h opt k \<longrightarrow> t' y = t y)"
    using sgd_param_frame by blast
  show "\<And>k. k < opt_num_parameters opt \<Longrightarrow> x \<notin> sgd_touched h opt k" by fact
qed

lemma adam_body_frame:
  assumes "adam_body st b1 b2 q i j s = Some s'"
  shows "map_option grad (s' y) = map_option grad (s y)"
    and "y \<noteq> q \<Longrightarrow> (i < length (adam_m st) \<longrightarrow> y \<noteq> adam_m st ! i)
           \<Longrightarrow> (i < length (adam_v st) \<longrightarrow> y \<noteq> adam_v st ! i) \<Longrightarrow> s' y = s y"
proof -
  from assms obtain mi vi x1 s1 x2 s2 x3 where
    m: "load (adam_m st) i = Some mi" and v: "load (adam_v st) i = Some vi"
    and s1: "store_data s mi j x1 = Some s1"
    and s2: "store_data s1 vi j x2 = Some s2"
    and s3: "store_data s2 q j x3 = Some s'"
    by (auto simp: adam_body_def bind_eq_Some_conv Let_def)
  show "map_option grad (s' y) = map_option grad (s y)"
    using store_data_frame(1)[OF s1] store_data_frame(1)[OF s2] store_data_frame(1)[OF s3] by simp
  assume "y \<noteq> q" "i < length (adam_m st) \<longrightarrow> y \<noteq> adam_m st ! i"
    "i < length (adam_v st) \<longrightarrow> y \<noteq> adam_v st ! i"
  then have "y \<noteq> q" "y \<noteq> mi" "y \<noteq> vi" using m v by (auto simp: load_Some)
  then show "s' y = s y"
    using store_data_frame(2)[OF s1] store_data_frame(2)[OF s2] store_data_frame(2)[OF s3] by simp
qed

lemma adam_param_frame:
  assumes G: "same_grads h t" and run: "adam_param st b1 b2 params k t = Some t'"
  shows "same_grads h t' \<and> (\<forall>y. y \<notin> adam_touched h st params k \<longrightarrow> t' y = t y)"
proof -
  from run obtain q Q where q: "k < length params" "q = params ! k"
    and Q: "t q = Some Q"
    and rest: "(if grad Q = None then Some t
       else for_loop 0 (tsize Q) (adam_body st b1 b2 q k) t) = Some t'"
    by (auto simp: adam_param_def bind_eq_Some_conv load_Some)
  show ?thesis
  proof (cases "grad Q = None")
    case True
    with rest G show ?thesis by simp
  next
    case False
    obtain Q' where "h q = Some Q'" "grad Q' = grad Q"
      using same_grads_null[OF G Q] by blast
    with False q have touched: "adam_touched h st params k = {q}
           \<union> {mi. k < length (adam_m st) \<and> mi = adam_m st ! k}
           \<union> {vi. k < length (adam_v st) \<and> vi = adam_v st ! k}"
      by (simp add: adam_touched_def)
    let ?P = "\<lambda>s. same_grads h s \<and> (\<forall>y. y \<notin> adam_touched h st params k \<longrightarrow> s y = t y)"
    from rest False have run': "for_loop 0 (tsize Q) (adam_body st b1 b2 q k) t = Some t'"
      by simp
    show ?thesis
    proof (rule for_loop_partial[OF run', where P = ?P])
      show "?P t" using G by simp
      fix j s s' assume "?P s" and b: "adam_body st b1 b2 q k j s = Some s'"
      then show "?P s'"
        using adam_body_frame[OF b] touched
        by (auto simp: same_grads_def)
    qed
  qed
qed

lemma adam_step_state:
  "adam_step h opt = Some (h', opt') \<Longrightarrow>
   opt' = opt\<lparr>opt_state := (opt_state opt)\<lparr>adam_t := adam_t (opt_state opt) + 1\<rparr>\<rparr>"
  unfolding adam_step_def Let_def
  by (cases "for_loop 0 (opt_num_parameters opt)
             (adam_param ((opt_state opt)\<lparr>adam_t := adam_t (opt_state opt) + 1\<rparr>)
                (1 - adam_beta1 ((opt_state opt)\<lparr>adam_t := adam_t (opt_state opt) + 1\<rparr>)
                       powi adam_t ((opt_state opt)\<lparr>adam_t := adam_t (opt_state opt) + 1\<rparr>))
                (1 - adam_beta2 ((opt_state opt)\<lparr>adam_t := adam_t (opt_state opt) + 1\<rparr>)
                       powi adam_t ((opt_state opt)\<lparr>adam_t := adam_t (opt_state opt) + 1\<rparr>))
                (opt_parameters opt)) h") simp_all

lemma adam_step_frame:
  assumes "adam_step h opt = Some (h', opt')"
    and "\<And>k. k < opt_num_parameters opt \<Longrightarrow>
           x \<notin> adam_touched h ((opt_state opt)\<lparr>adam_t := adam_t (opt_state opt) + 1\<rparr>)
                  (opt_parameters opt) k"
  shows "h' x = h x" and "opt' = opt\<lparr>opt_state := (opt_state opt)\<lparr>adam_t := adam_t (opt_state opt) + 1\<rparr>\<rparr>"
proof -
  let ?st = "(opt_state opt)\<lparr>adam_t := adam_t (opt_state opt) + 1\<rparr>"
  let ?b1 = "1 - adam_beta1 ?st powi adam_t ?st"
  let ?b2 = "1 - adam_beta2 ?st powi adam_t ?st"
  from assms(1) have run: "for_loop 0 (opt_num_parameters opt)
             (adam_param ?st ?b1 ?b2 (opt_parameters opt)) h = Some h'"
    and o: "opt' = opt\<lparr>opt_state := ?st\<rparr>"
    by (auto simp: adam_step_def Let_def split: option.splits)
  show "opt' = opt\<lparr>opt_state := ?st\<rparr>" by fact
  show "h' x = h x"
  proof (rule for_loop_frame[where G = "same_grads h"
          and T = "adam_touched h ?st (opt_parameters opt)", OF run])
    show "same_grads h h" by (rule same_grads_refl)
    show "\<And>k t t'. k < opt_num_parameters opt \<Longrightarrow> same_grads h t \<Longrightarrow>
           adam_param ?st ?b1 ?b2 (opt_parameters opt) k t = Some t' \<Longrightarrow>
           same_grads h t' \<and> (\<forall>y. y \<notin> adam_touched h ?st (opt_parameters opt) k \<longrightarrow> t' y = t y)"
      using adam_param_frame by blast
    show "\<And>k. k < opt_num_parameters opt \<Longrightarrow> x \<notin> adam_touched h ?st (opt_parameters opt) k"
      by fact
  qed
qed

lemma disjoint_nth:
  assumes "set xs \<inter> set ys = {}" and "i < length xs" and "j < length ys"
  shows "xs ! i \<noteq> ys ! j"
proof
  assume eq: "xs ! i = ys ! j"
  have "xs ! i \<in> set xs" using assms(2) by (rule nth_mem)
  moreover have "xs ! i \<in> set ys" unfolding eq using assms(3) by (rule nth_mem)
  ultimately show False using assms(1) by blast
qed

lemma distinct_append_nth:
  assumes "distinct (xs @ ys)"
  shows "i < length xs \<Longrightarrow> k < length xs \<Longrightarrow> k \<noteq> i \<Longrightarrow> xs ! i \<noteq> xs ! k"
    and "i < length ys \<Longrightarrow> k < length ys \<Longrightarrow> k \<noteq> i \<Longrightarrow> ys ! i \<noteq> ys ! k"
    and "i < length xs \<Longrightarrow> k < length ys \<Longrightarrow> xs ! i \<noteq> ys ! k"
proof -
  from assms have dx: "distinct xs" and dy: "distinct ys" and dis: "set xs \<inter> set ys = {}"
    by simp_all
  show "i < length xs \<Longrightarrow> k < length xs \<Longrightarrow> k \<noteq> i \<Longrightarrow> xs ! i \<noteq> xs ! k"
    using dx by (simp add: nth_eq_iff_index_eq)
  show "i < length ys \<Longrightarrow> k < length ys \<Longrightarrow> k \<noteq> i \<Longrightarrow> ys ! i \<noteq> ys ! k"
    using dy by (simp add: nth_eq_iff_index_eq)
  show "i < length xs \<Longrightarrow> k < length ys \<Longrightarrow> xs ! i \<noteq> ys ! k"
    using disjoint_nth[OF dis] by simp
qed

text \<open>
  Claim C10. In \<^verbatim>\<open>sgd_step\<close> and in \<^verbatim>\<open>adam_step\<close>, a parameter tensor whose gradient
  buffer is null is skipped: whenever the step returns, that tensor (its data buffer
  included) is exactly as before, and so are the state tensors of its index (\<^verbatim>\<open>velocity[i]\<close>,
  resp. \<^verbatim>\<open>m[i]\<close> and \<^verbatim>\<open>v[i]\<close>); the state arrays themselves are the same after
  \<^verbatim>\<open>adam_step\<close>, which changes only the step counter. The state tensors are distinct from
  each other and from the parameters, as the init-state functions create them.
\<close>

theorem optimizer_step_skips_null_grad:
  "(sgd_step h sopt = Some h' \<and> i < length (opt_parameters sopt)
      \<and> h (opt_parameters sopt ! i) = Some P \<and> grad P = None
      \<and> (\<forall>vel. sgd_velocity (opt_state sopt) = Some vel \<longrightarrow>
             distinct vel \<and> set vel \<inter> set (opt_parameters sopt) = {})
    \<longrightarrow> h' (opt_parameters sopt ! i) = Some P
       \<and> (\<forall>vel. sgd_velocity (opt_state sopt) = Some vel \<and> i < length vel \<longrightarrow>
              h' (vel ! i) = h (vel ! i)))
   \<and> (adam_step h aopt = Some (h'', aopt') \<and> i < length (opt_parameters aopt)
      \<and> h (opt_parameters aopt ! i) = Some P \<and> grad P = None
      \<and> distinct (adam_m (opt_state aopt) @ adam_v (opt_state aopt))
      \<and> set (adam_m (opt_state aopt) @ adam_v (opt_state aopt)) \<inter> set (opt_parameters aopt) = {}
    \<longrightarrow> h'' (opt_parameters aopt ! i) = Some P
       \<and> (i < length (adam_m (opt_state aopt)) \<longrightarrow>
              h'' (adam_m (opt_state aopt) ! i) = h (adam_m (opt_state aopt) ! i))
       \<and> (i < length (adam_v (opt_state aopt)) \<longrightarrow>
              h'' (adam_v (opt_state aopt) ! i) = h (adam_v (opt_state aopt) ! i))
       \<and> adam_m (opt_state aopt') = adam_m (opt_state aopt)
       \<and> adam_v (opt_state aopt') = adam_v (opt_state aopt))"
proof (intro conjI impI; (elim conjE)?)
  assume run: "sgd_step h sopt = Some h'" and i: "i < length (opt_parameters sopt)"
    and P: "h (opt_parameters sopt ! i) = Some P" "grad P = None"
    and sep: "\<forall>vel. sgd_velocity (opt_state sopt) = Some vel \<longrightarrow>
             distinct vel \<and> set vel \<inter> set (opt_parameters sopt) = {}"
  have "opt_parameters sopt ! i \<notin> sgd_touched h sopt k" for k
  proof -
    have "opt_parameters sopt ! i \<noteq> vel ! k"
      if "sgd_velocity (opt_state sopt) = Some vel" "k < length vel" for vel
      using disjoint_nth[of vel "opt_parameters sopt" k i] sep that i by auto
    then show ?thesis using P by (auto simp: sgd_touched_def)
  qed
  then show "h' (opt_parameters sopt ! i) = Some P"
    using sgd_step_frame[OF run] P by simp
  show "\<forall>vel. sgd_velocity (opt_state sopt) = Some vel \<and> i < length vel \<longrightarrow>
              h' (vel ! i) = h (vel ! i)"
  proof (intro allI impI, elim conjE)
    fix vel assume v: "sgd_velocity (opt_state sopt) = Some vel" "i < length vel"
    then have d: "distinct vel" "set vel \<inter> set (opt_parameters sopt) = {}" using sep by auto
    have "vel ! i \<notin> sgd_touched h sopt k" for k
    proof (cases "k = i")
      case True
      then show ?thesis using P i by (simp add: sgd_touched_def)
    next
      case False
      have "vel ! i \<noteq> opt_parameters sopt ! k" if "k < length (opt_parameters sopt)"
        using disjoint_nth[OF d(2) v(2) that] .
      moreover have "vel ! i \<noteq> vel ! k" if "k < length vel"
        using False d(1) v(2) that by (simp add: nth_eq_iff_index_eq)
      ultimately show ?thesis
        using v by (auto simp: sgd_touched_def)
    qed
    then show "h' (vel ! i) = h (vel ! i)"
      using sgd_step_frame[OF run] by simp
  qed
next
  assume run: "adam_step h aopt = Some (h'', aopt')" and i: "i < length (opt_parameters aopt)"
    and P: "h (opt_parameters aopt ! i) = Some P" "grad P = None"
    and d: "distinct (adam_m (opt_state aopt) @ adam_v (opt_state aopt))"
    and sep: "set (adam_m (opt_state aopt) @ adam_v (opt_state aopt)) \<inter> set (opt_parameters aopt) = {}"
  let ?st = "(opt_state aopt)\<lparr>adam_t := adam_t (opt_state aopt) + 1\<rparr>"
  have sepm: "set (adam_m (opt_state aopt)) \<inter> set (opt_parameters aopt) = {}"
    and sepv: "set (adam_v (opt_state aopt)) \<inter> set (opt_parameters aopt) = {}"
    using sep by auto
  have "opt_parameters aopt ! i \<notin> adam_touched h ?st (opt_parameters aopt) k" for k
  proof -
    have "opt_parameters aopt ! i \<noteq> adam_m (opt_state aopt) ! k"
      if "k < length (adam_m (opt_state aopt))"
      using disjoint_nth[of "adam_m (opt_state aopt)" "opt_parameters aopt" k i] sepm that i by auto
    moreover have "opt_parameters aopt ! i \<noteq> adam_v (opt_state aopt) ! k"
      if "k < length (adam_v (opt_state aopt))"
      using disjoint_nth[of "adam_v (opt_state aopt)" "opt_parameters aopt" k i] sepv that i by auto
    ultimately show ?thesis using P by (auto simp: adam_touched_def)
  qed
  then show "h'' (opt_parameters aopt ! i) = Some P"
    using adam_step_frame(1)[OF run] P by simp
  show "h'' (adam_m (opt_state aopt) ! i) = h (adam_m (opt_state aopt) ! i)"
    if im: "i < length (adam_m (opt_state aopt))"
  proof -
    have "adam_m (opt_state aopt) ! i \<notin> adam_touched h ?st (opt_parameters aopt) k" for k
    proof (cases "k = i")
      case True
      then show ?thesis using P i by (simp add: adam_touched_def)
    next
      case False
      then show ?thesis
        using im distinct_append_nth(1,3)[OF d, of i k] disjoint_nth[OF sepm im, of k]
        by (auto simp: adam_touched_def)
    qed
    then show ?thesis
      using adam_step_frame(1)[OF run] by simp
  qed
  show "h'' (adam_v (opt_state aopt) ! i) = h (adam_v (opt_state aopt) ! i)"
    if iv: "i < length (adam_v (opt_state aopt))"
  proof -
    have "adam_v (opt_state aopt) ! i \<notin> adam_touched h ?st (opt_parameters aopt) k" for k
    proof (cases "k = i")
      case True
      then show ?thesis using P i by (simp add: adam_touched_def)
    next
      case False
      then show ?thesis
        using iv distinct_append_nth(2)[OF d, of i k] distinct_append_nth(3)[OF d, of k i]
          disjoint_nth[OF sepv iv, of k]
        by (auto simp: adam_touched_def)
    qed
    then show ?thesis
      using adam_step_frame(1)[OF run] by simp
  qed
  show "adam_m (opt_state aopt') = adam_m (opt_state aopt)"
    using adam_step_state[OF run] by simp
  show "adam_v (opt_state aopt') = adam_v (opt_state aopt)"
    using adam_step_state[OF run] by simp
qed

theorem optimizer_step_skips_null_grad_witness:
  "(\<exists>h'. sgd_step
        [1 \<mapsto> \<lparr>data = [5, 6], grad = None, shape = [2], ndim = 1, tsize = 2,
                 requires_grad = 1, inputs = []\<rparr>,
         2 \<mapsto> \<lparr>data = [10], grad = Some [2], shape = [1], ndim = 1, tsize = 1,
                 requires_grad = 1, inputs = []\<rparr>,
         3 \<mapsto> \<lparr>data = [7, 8], grad = None, shape = [2], ndim = 1, tsize = 2,
                 requires_grad = 0, inputs = []\<rparr>,
         4 \<mapsto> \<lparr>data = [1], grad = None, shape = [1], ndim = 1, tsize = 1,
                 requires_grad = 0, inputs = []\<rparr>]
        \<lparr>opt_name = ''sgd'', opt_parameters = [1, 2], opt_num_parameters = 2, opt_step = (),
         opt_free_state = (),
         opt_state = \<lparr>sgd_learning_rate = 1 / 2, sgd_momentum = 1 / 2, sgd_velocity = Some [3, 4]\<rparr>\<rparr>
        = Some h'
      \<and> h' 1 = Some \<lparr>data = [5, 6], grad = None, shape = [2], ndim = 1, tsize = 2,
                 requires_grad = 1, inputs = []\<rparr>
      \<and> h' 3 = Some \<lparr>data = [7, 8], grad = None, shape = [2], ndim = 1, tsize = 2,
                 requires_grad = 0, inputs = []\<rparr>)
   \<and> (\<exists>h'' aopt'. adam_step
        [1 \<mapsto> \<lparr>data = [5, 6], grad = None, shape = [2], ndim = 1, tsize = 2,
                 requires_grad = 1, inputs = []\<rparr>,
         2 \<mapsto> \<lparr>data = [10], grad = Some [0], shape = [1], ndim = 1, tsize = 1,
                 requires_grad = 1, inputs = []\<rparr>,
         3 \<mapsto> \<lparr>data = [7, 8], grad = None, shape = [2], ndim = 1, tsize = 2,
                 requires_grad = 0, inputs = []\<rparr>,
         4 \<mapsto> \<lparr>data = [0], grad = None, shape = [1], ndim = 1, tsize = 1,
                 requires_grad = 0, inputs = []\<rparr>,
         5 \<mapsto> \<lparr>data = [9, 9], grad = None, shape = [2], ndim = 1, tsize = 2,
                 requires_grad = 0, inputs = []\<rparr>,
         6 \<mapsto> \<lparr>data = [0], grad = None, shape = [1], ndim = 1, tsize = 1,
                 requires_grad = 0, inputs = []\<rparr>]
        \<lparr>opt_name = ''adam'', opt_parameters = [1, 2], opt_num_parameters = 2, opt_step = (),
         opt_free_state = (),
         opt_state = \<lparr>adam_learning_rate = 1 / 2, adam_beta1 = 1 / 2, adam_beta2 = 1 / 2,
                      adam_epsilon = 1, adam_t = 0, adam_m = [3, 4], adam_v = [5, 6]\<rparr>\<rparr>
        = Some (h'', aopt')
      \<and> h'' 1 = Some \<lparr>data = [5, 6], grad = None, shape = [2], ndim = 1, tsize = 2,
                 requires_grad = 1, inputs = []\<rparr>
      \<and> h'' 3 = Some \<lparr>data = [7, 8], grad = None, shape = [2], ndim = 1, tsize = 2,
                 requires_grad = 0, inputs = []\<rparr>
      \<and> h'' 5 = Some \<lparr>data = [9, 9], grad = None, shape = [2], ndim = 1, tsize = 2,
                 requires_grad = 0, inputs = []\<rparr>)"
proof -
  let ?P1 = "\<lparr>data = [5, 6], grad = None, shape = [2], ndim = 1, tsize = 2,
              requires_grad = 1, inputs = []\<rparr>"
  let ?V1 = "\<lparr>data = [7, 8], grad = None, shape = [2], ndim = 1, tsize = 2,
              requires_grad = 0, inputs = []\<rparr>"
  let ?W1 = "\<lparr>data = [9, 9], grad = None, shape = [2], ndim = 1, tsize = 2,
              requires_grad = 0, inputs = []\<rparr>"
  let ?hs = "[1 \<mapsto> ?P1,
         2 \<mapsto> \<lparr>data = [10], grad = Some [2], shape = [1], ndim = 1, tsize = 1,
                 requires_grad = 1, inputs = []\<rparr>,
         3 \<mapsto> ?V1,
         4 \<mapsto> \<lparr>data = [1], grad = None, shape = [1], ndim = 1, tsize = 1,
                 requires_grad = 0, inputs = []\<rparr>]"
  let ?so = "\<lparr>opt_name = ''sgd'', opt_parameters = [1, 2], opt_num_parameters = 2, opt_step = (),
         opt_free_state = (),
         opt_state = \<lparr>sgd_learning_rate = 1 / 2, sgd_momentum = 1 / 2, sgd_velocity = Some [3, 4]\<rparr>\<rparr>"
  let ?ha = "[1 \<mapsto> ?P1,
         2 \<mapsto> \<lparr>data = [10], grad = Some [0], shape = [1], ndim = 1, tsize = 1,
                 requires_grad = 1, inputs = []\<rparr>,
         3 \<mapsto> ?V1,
         4 \<mapsto> \<lparr>data = [0], grad = None, shape = [1], ndim = 1, tsize = 1,
                 requires_grad = 0, inputs = []\<rparr>,
         5 \<mapsto> ?W1,
         6 \<mapsto> \<lparr>data = [0], grad = None, shape = [1], ndim = 1, tsize = 1,
                 requires_grad = 0, inputs = []\<rparr>]"
  let ?ao = "\<lparr>opt_name = ''adam'', opt_parameters = [1, 2], opt_num_parameters = 2, opt_step = (),
         opt_free_state = (),
         opt_state = \<lparr>adam_learning_rate = 1 / 2, adam_beta1 = 1 / 2, adam_beta2 = 1 / 2,
                      adam_epsilon = 1, adam_t = 0, adam_m = [3, 4], adam_v = [5, 6]\<rparr>\<rparr>"
  have "\<exists>h'. sgd_step ?hs ?so = Some h'"
    by (simp add: sgd_step_def sgd_param_def sgd_momentum_body_def for_loop.simps load_def
          store_def load_data_def load_grad_def store_data_def)
  then obtain h' where s: "sgd_step ?hs ?so = Some h'" by blast
  have "\<exists>h'' aopt'. adam_step ?ha ?ao = Some (h'', aopt')"
    by (simp add: adam_step_def adam_param_def adam_body_def for_loop.simps load_def
          store_def load_data_def load_grad_def store_data_def Let_def)
  then obtain h'' aopt' where a: "adam_step ?ha ?ao = Some (h'', aopt')" by blast
  from optimizer_step_skips_null_grad
         [where h = ?hs and sopt = ?so and h' = h' and i = 0 and P = ?P1
            and aopt = ?ao and h'' = h'' and aopt' = aopt', THEN conjunct1] s
  have "h' 1 = Some ?P1 \<and> h' 3 = Some ?V1" by simp
  with s have A: "\<exists>h'. sgd_step ?hs ?so = Some h' \<and> h' 1 = Some ?P1 \<and> h' 3 = Some ?V1"
    by blast
  from optimizer_step_skips_null_grad
         [where h = ?ha and aopt = ?ao and h'' = h'' and aopt' = aopt' and i = 0 and P = ?P1
            and sopt = ?so and h' = h', THEN conjunct2] a
  have "h'' 1 = Some ?P1 \<and> h'' 3 = Some ?V1 \<and> h'' 5 = Some ?W1" by simp
  with a have B: "\<exists>h'' aopt'. adam_step ?ha ?ao = Some (h'', aopt')
      \<and> h'' 1 = Some ?P1 \<and> h'' 3 = Some ?V1 \<and> h'' 5 = Some ?W1"
    by blast
  show ?thesis by (rule conjI[OF A B])
qed

section \<open>Accelerated operations: guards and fallback\<close>

lemma shape_differs_iff:
  "shape_differs A B i \<longleftrightarrow> (\<exists>k. i \<le> k \<and> k < ndim A \<and> shape A ! k \<noteq> shape B ! k)"
proof (induction A B i rule: shape_differs.induct)
  case (1 A B i)
  show ?case
  proof (cases "i < ndim A")
    case False
    then show ?thesis by (subst shape_differs.simps) auto
  next
    case True
    show ?thesis
    proof (cases "shape A ! i \<noteq> shape B ! i")
      case d: True
      with True show ?thesis by (subst shape_differs.simps) auto
    next
      case d: False
      with True have "shape_differs A B i = shape_differs A B (i + 1)"
        by (subst shape_differs.simps) simp
      also have "\<dots> \<longleftrightarrow> (\<exists>k. i + 1 \<le> k \<and> k < ndim A \<and> shape A ! k \<noteq> shape B ! k)"
        using "1.IH" True d by simp
      also have "\<dots> \<longleftrightarrow> (\<exists>k. i \<le> k \<and> k < ndim A \<and> shape A ! k \<noteq> shape B ! k)"
        using d by (metis Suc_eq_plus1 Suc_leD Suc_leI le_neq_implies_less)
      finally show ?thesis .
    qed
  qed
qed

lemma elementwise_binary_op_fallback:
  assumes "webgpu_available ctx = 0 \<or> A = None \<or> B = None
     \<or> (\<exists>a b. A = Some a \<and> B = Some b
           \<and> (ndim a \<noteq> ndim b \<or> (\<exists>k<ndim a. shape a ! k \<noteq> shape b ! k)))"
  shows "elementwise_binary_op ctx A B device_path cpu_fallback = cpu_fallback A B"
  using assms
  by (auto simp: elementwise_binary_op_def shape_differs_iff split: option.splits)

lemma webgpu_binary_fallback_exact:
  assumes "webgpu_available (session env) = 0 \<or> A = None \<or> B = None
     \<or> (\<exists>a b. A = Some a \<and> B = Some b
           \<and> (ndim a \<noteq> ndim b \<or> (\<exists>k<ndim a. shape a ! k \<noteq> shape b ! k)))"
  shows "webgpu_tensor_add env A B = tensor_add_cpu env A B"
    and "webgpu_tensor_sub env A B = tensor_sub_cpu env A B"
    and "webgpu_tensor_mul env A B = tensor_mul_cpu env A B"
  using assms
  by (simp_all add: webgpu_tensor_add_def webgpu_tensor_sub_def webgpu_tensor_mul_def
        elementwise_binary_op_fallback)

lemma webgpu_matmul_fallback_exact:
  assumes "webgpu_available (session env) = 0 \<or> A = None \<or> B = None
     \<or> (\<exists>a b. A = Some a \<and> B = Some b
           \<and> (ndim a \<noteq> 2 \<or> ndim b \<noteq> 2 \<or> shape a ! 1 \<noteq> shape b ! 0))"
  shows "webgpu_tensor_matmul env A B = tensor_matmul_cpu env A B"
  using assms by (auto simp: webgpu_tensor_matmul_def split: option.splits)

lemma webgpu_softmax_fallback_exact:
  assumes "webgpu_available (session env) = 0 \<or> Z = None \<or> (\<exists>z. Z = Some z \<and> ndim z < 2)"
  shows "webgpu_tensor_softmax env Z = tensor_softmax_cpu env Z"
  using assms by (auto simp: webgpu_tensor_softmax_def split: option.splits)

lemma unary_fallback_never_returns:
  assumes "webgpu_available (session env) = 0"
    and "get_operation_fn (operation_registry env) op_name = Some WEBGPU"
  shows "dispatch_unary fuel env op_name cpu Z = None \<and> webgpu_unary fuel env op_name cpu Z = None"
proof (induction fuel arbitrary: Z)
  case 0
  show ?case by simp
next
  case (Suc fuel)
  have w: "webgpu_unary (Suc fuel) env op_name cpu Z = None"
    using assms(1) Suc by (simp add: elementwise_unary_op_def split: option.splits)
  have "dispatch_unary (Suc fuel) env op_name cpu Z = webgpu_unary fuel env op_name cpu Z"
    using assms(2) by simp
  with Suc w show ?case by simp
qed

lemma unary_without_accelerator_entry:
  assumes "get_operation_fn (operation_registry env) op_name \<noteq> Some WEBGPU"
    and "webgpu_available (session env) = 0 \<or> Z = None"
  shows "webgpu_unary (Suc (Suc fuel)) env op_name cpu Z = Some (cpu Z)"
  using assms
  by (auto simp: elementwise_unary_op_def split: option.splits backend.splits)

text \<open>
  Claim C3 fails for relu, sigmoid and tanh. The binary operations, matmul and softmax
  delegate to their \<^verbatim>\<open>tensor_*_cpu\<close> function (the three lemmas above), but the unary
  activations pass the public entry point (\<^verbatim>\<open>tensor_relu\<close>, not \<^verbatim>\<open>tensor_relu_cpu\<close>) as
  their fallback. With the accelerated implementation registered for the name and the
  session not ready, the fallback re-enters the dispatcher, which resolves to the accelerated
  implementation again: at every depth of the call stack there is no result, where the
  reference implementation returns one.
\<close>

theorem webgpu_unary_fallback_reenters_dispatch:
  "webgpu_available (session env) = 0 \<longrightarrow>
     (get_operation_fn (operation_registry env) ''relu'' = Some WEBGPU \<longrightarrow>
        webgpu_tensor_relu fuel env Z = None \<and> tensor_relu fuel env Z = None)
   \<and> (get_operation_fn (operation_registry env) ''sigmoid'' = Some WEBGPU \<longrightarrow>
        webgpu_tensor_sigmoid fuel env Z = None \<and> tensor_sigmoid fuel env Z = None)
   \<and> (get_operation_fn (operation_registry env) ''tanh'' = Some WEBGPU \<longrightarrow>
        webgpu_tensor_tanh fuel env Z = None \<and> tensor_tanh fuel env Z = None)"
  by (simp add: webgpu_tensor_relu_def webgpu_tensor_sigmoid_def webgpu_tensor_tanh_def
        tensor_relu_def tensor_sigmoid_def tensor_tanh_def unary_fallback_never_returns)

lemma registry_get_empty [simp]: "registry_get empty_registry key = None"
  by (simp add: registry_get_def empty_registry_def)

lemma get_operation_fn_webgpu_register_ops:
  assumes "webgpu_available ctx \<noteq> 0"
  shows "get_operation_fn (webgpu_register_ops ctx empty_registry) ''relu'' = Some WEBGPU"
    and "get_operation_fn (webgpu_register_ops ctx empty_registry) ''sigmoid'' = Some WEBGPU"
    and "get_operation_fn (webgpu_register_ops ctx empty_registry) ''tanh'' = Some WEBGPU"
  using assms
  by (simp_all add: webgpu_register_ops_def get_operation_fn_def registry_get_register)

theorem webgpu_unary_fallback_reenters_dispatch_witness:
  "\<forall>fuel.
     webgpu_tensor_relu fuel
       \<lparr>session = webgpu_cleanup (g_webgpu_ctx_initial\<lparr>ctx_initialized := 1\<rparr>),
        operation_registry =
          webgpu_register_ops (g_webgpu_ctx_initial\<lparr>ctx_initialized := 1\<rparr>) empty_registry,
        tensor_add_cpu = (\<lambda>A B. 0::nat), tensor_sub_cpu = (\<lambda>A B. 0), tensor_mul_cpu = (\<lambda>A B. 0),
        tensor_matmul_cpu = (\<lambda>A B. 0), tensor_relu_cpu = (\<lambda>Z. 0), tensor_sigmoid_cpu = (\<lambda>Z. 0),
        tensor_tanh_cpu = (\<lambda>Z. 0), tensor_softmax_cpu = (\<lambda>Z. 0),
        device_binary = (\<lambda>n A B. 1), device_matmul = (\<lambda>A B. 1), device_unary = (\<lambda>n Z. 1),
        device_softmax = (\<lambda>Z. 1)\<rparr>
       (Some \<lparr>data = [- 1, 2], grad = None, shape = [2], ndim = 1, tsize = 2,
              requires_grad = 0, inputs = []\<rparr>)
     = None"
proof
  fix fuel
  let ?ctx = "g_webgpu_ctx_initial\<lparr>ctx_initialized := 1\<rparr>"
  let ?env = "\<lparr>session = webgpu_cleanup ?ctx,
        operation_registry = webgpu_register_ops ?ctx empty_registry,
        tensor_add_cpu = (\<lambda>A B. 0::nat), tensor_sub_cpu = (\<lambda>A B. 0), tensor_mul_cpu = (\<lambda>A B. 0),
        tensor_matmul_cpu = (\<lambda>A B. 0), tensor_relu_cpu = (\<lambda>Z. 0), tensor_sigmoid_cpu = (\<lambda>Z. 0),
        tensor_tanh_cpu = (\<lambda>Z. 0), tensor_softmax_cpu = (\<lambda>Z. 0),
        device_binary = (\<lambda>n A B. 1), device_matmul = (\<lambda>A B. 1), device_unary = (\<lambda>n Z. 1),
        device_softmax = (\<lambda>Z. 1)\<rparr>"
  have r: "webgpu_available ?ctx \<noteq> 0"
    by (simp add: webgpu_available_def)
  have c: "webgpu_available (session ?env) = 0"
    by (simp add: webgpu_available_def webgpu_cleanup_def)
  show "webgpu_tensor_relu fuel ?env
       (Some \<lparr>data = [- 1, 2], grad = None, shape = [2], ndim = 1, tsize = 2,
              requires_grad = 0, inputs = []\<rparr>) = None"
    using webgpu_unary_fallback_reenters_dispatch[of ?env fuel] c
      get_operation_fn_webgpu_register_ops[OF r]
    by simp
qed

section \<open>Softmax on the accelerator\<close>

lemma webgpu_softmax_device_path:
  "webgpu_available (session env) \<noteq> 0 \<Longrightarrow> 2 \<le> ndim z \<Longrightarrow>
   webgpu_tensor_softmax env (Some z) = device_softmax env z"
  by (simp add: webgpu_tensor_softmax_def)

text \<open>
  Claim C1 fails for softmax by the launch parameters alone, before any floating-point
  question: \<^verbatim>\<open>stride\<close> starts at the row length, is multiplied by every dimension after the
  first and divided by the batch, which is the row length only when batch and row length
  agree. For the 2 by 3 tensor of the unit test \<^verbatim>\<open>tensor_softmax_2d\<close> the second workgroup
  takes elements 4, 5, 6 for its row: element 3 of the output is never written, element 6 is
  outside the buffers. For a 3 by 2 tensor the rows overlap and elements 4 and 5 are never
  written.
\<close>

theorem webgpu_softmax_rows_stride_slip:
  "webgpu_softmax_rows \<lparr>data = [1, 2, 3, 1, 1, 1], grad = None, shape = [2, 3], ndim = 2, tsize = 6,
                         requires_grad = 0, inputs = []\<rparr> = Some [[0, 1, 2], [4, 5, 6]]
   \<and> row_major_rows \<lparr>data = [1, 2, 3, 1, 1, 1], grad = None, shape = [2, 3], ndim = 2, tsize = 6,
                      requires_grad = 0, inputs = []\<rparr> = [[0, 1, 2], [3, 4, 5]]
   \<and> webgpu_softmax_rows \<lparr>data = [1, 2, 3, 4, 5, 6], grad = None, shape = [3, 2], ndim = 2, tsize = 6,
                         requires_grad = 0, inputs = []\<rparr> = Some [[0, 1], [1, 2], [2, 3]]
   \<and> row_major_rows \<lparr>data = [1, 2, 3, 4, 5, 6], grad = None, shape = [3, 2], ndim = 2, tsize = 6,
                      requires_grad = 0, inputs = []\<rparr> = [[0, 1], [2, 3], [4, 5]]"
  by (simp add: webgpu_softmax_rows_def webgpu_softmax_launch_def stride_loop.simps
        softmax_workgroup_row_def row_major_rows_def Let_def upt_rec)

end
